theory Spec2Isabelle
  imports Main
begin

section \<open>Python values shared by the models\<close>

text \<open>
  Exceptions are values. The type ranges over instances of Python's \<^verbatim>\<open>Exception\<close>
  class, which is what the \<^verbatim>\<open>except Exception\<close> clauses of the sources catch:
  \<^verbatim>\<open>KeyError\<close> for a missing dictionary key, \<^verbatim>\<open>TypeError\<close> for calling a value that is
  not callable, \<^verbatim>\<open>FileNotFoundError\<close> for a directory that cannot be listed, with its
  name, and \<^verbatim>\<open>Exception\<close> for whatever a collaborator (broker, store, operating system,
  logging handler) raises, with its message.
\<close>

datatype exn = KeyError string | TypeError string | FileNotFoundError string | Exception string

text \<open>\<^verbatim>\<open>str(ex)\<close>: a \<^verbatim>\<open>KeyError\<close> prints the repr of its key.\<close>

fun str_exn :: "exn \<Rightarrow> string" where
  "str_exn (KeyError k) = [CHR 0x27] @ k @ [CHR 0x27]"
| "str_exn (TypeError msg) = msg"
| "str_exn (FileNotFoundError name) =
     ''[Errno 2] No such file or directory: '' @ [CHR 0x27] @ name @ [CHR 0x27]"
| "str_exn (Exception msg) = msg"

text \<open>
  A log record is the level name, the message and the arguments handed to the logger
  (\<^verbatim>\<open>logger.warning("... %s", x)\<close> keeps the message and \<^verbatim>\<open>x\<close> apart; an f-string is
  formatted before the call and has no arguments).
\<close>

datatype pyval = PyStr string | PyInt int | PyNone

type_synonym log_record = "string \<times> string \<times> pyval list"

text \<open>How one pass through a loop body ends: fall through to the next iteration,
  \<^verbatim>\<open>break\<close>, or an exception that leaves the loop. Each carries the state reached.\<close>

datatype 'a flow = Continue 'a | Break 'a | Raise exn 'a

section \<open>monitor.py: PluginStatusMonitor\<close>

text \<open>
  An instance as \<^verbatim>\<open>check_status\<close> reads it: \<^verbatim>\<open>instance.status\<close> is a string,
  \<^verbatim>\<open>instance.status_info\<close> a dictionary. The value under \<^verbatim>\<open>"heartbeat"\<close> is \<^verbatim>\<open>None\<close>
  or a \<^verbatim>\<open>datetime\<close>, modelled as its number of microseconds since the epoch (a \<^verbatim>\<open>datetime\<close>
  is always truthy, \<^verbatim>\<open>None\<close> is falsy). A \<^verbatim>\<open>timedelta\<close> is a number of microseconds.
\<close>

record Instance =
  inst_name :: string
  status :: string
  status_info :: "string \<rightharpoonup> int option"

record System =
  sys_name :: string
  instances :: "Instance list"

record PluginStatusMonitor =
  heartbeat_interval :: int
  timeout :: int

definition timedelta_seconds :: "int \<Rightarrow> int" where
  "timedelta_seconds s = s * 1000000"

text \<open>\<^verbatim>\<open>__init__(self, heartbeat_interval=10, timeout_seconds=30)\<close>\<close>

definition PluginStatusMonitor_init :: "int \<Rightarrow> int \<Rightarrow> PluginStatusMonitor" where
  "PluginStatusMonitor_init interval timeout_seconds =
     \<lparr>heartbeat_interval = interval, timeout = timedelta_seconds timeout_seconds\<rparr>"

text \<open>
  The persistence module \<^verbatim>\<open>beer_garden.db.api\<close> is a collaborator of the monitor. Its
  state is the sequence of system documents, a document being identified by its position;
  \<^verbatim>\<open>db.query(System)\<close> returns the documents and \<^verbatim>\<open>db.update(system)\<close> replaces the
  document of that system by the object handed in. \<open>writes\<close> records every assignment
  \<^verbatim>\<open>instance.status = ...\<close> the monitor makes, in order, as (system position, instance
  position, status assigned).
\<close>

record db =
  store :: "System list"
  writes :: "(nat \<times> nat \<times> string) list"

text \<open>The probe request and the keyword arguments of \<^verbatim>\<open>queue.put\<close>; \<open>expiration\<close> is the
  number whose \<^verbatim>\<open>str()\<close> is passed.\<close>

record status_request =
  command :: string
  command_type :: string
  routing_key :: string
  expiration :: int

record world =
  database :: db
  queue :: "status_request list"
  logged :: "log_record list"

text \<open>
  What the surroundings answer during one pass of the monitor loop: what other components
  did to the store while the monitor waited, whether \<^verbatim>\<open>queue.put\<close> and \<^verbatim>\<open>db.query\<close>
  raise, and, at the instance at position \<open>j\<close> of the system at position \<open>i\<close>, what
  \<^verbatim>\<open>self.stopped()\<close> and \<^verbatim>\<open>datetime.utcnow()\<close> return and whether \<^verbatim>\<open>db.update\<close> raises.
  (At most one of the two \<^verbatim>\<open>utcnow()\<close> calls of the loop body is evaluated for an
  instance, since \<^verbatim>\<open>and\<close> evaluates its right operand only when the left one holds and
  the two status tests exclude each other.)
\<close>

record sweep_env =
  during_wait :: "System list \<Rightarrow> System list"
  put_raises :: "exn option"
  query_raises :: "exn option"
  stopped_at :: "nat \<Rightarrow> nat \<Rightarrow> bool"
  utcnow_at :: "nat \<Rightarrow> nat \<Rightarrow> int"
  update_raises :: "nat \<Rightarrow> nat \<Rightarrow> exn option"

text \<open>\<^verbatim>\<open>instance.status = s; db.update(system)\<close> for the instance at position \<open>j\<close> of the
  in-memory system object \<open>sys\<close>, read from position \<open>i\<close> of the store.\<close>

definition assign_and_update ::
  "sweep_env \<Rightarrow> nat \<Rightarrow> nat \<Rightarrow> string \<Rightarrow> System \<times> db \<Rightarrow> Instance \<Rightarrow> (System \<times> db) flow" where
  "assign_and_update e i j s st inst =
     (let sys' = (fst st)\<lparr>instances := (instances (fst st))[j := inst\<lparr>status := s\<rparr>]\<rparr>;
          d1 = (snd st)\<lparr>writes := writes (snd st) @ [(i, j, s)]\<rparr>
      in case update_raises e i j of
           Some ex \<Rightarrow> Raise ex (sys', d1)
         | None \<Rightarrow> Continue (sys', d1\<lparr>store := (store d1)[i := sys']\<rparr>))"

text \<open>The body of the inner loop of \<^verbatim>\<open>check_status\<close> (monitor.py, lines 55 to 73).\<close>

definition check_instance ::
  "PluginStatusMonitor \<Rightarrow> sweep_env \<Rightarrow> nat \<Rightarrow> nat \<Rightarrow> System \<times> db \<Rightarrow> Instance \<Rightarrow> (System \<times> db) flow" where
  "check_instance m e i j st inst =
     (if stopped_at e i j then Break st
      else case status_info inst ''heartbeat'' of
          None \<Rightarrow> Raise (KeyError ''heartbeat'') st
        | Some None \<Rightarrow> Continue st
        | Some (Some last_heartbeat) \<Rightarrow>
            if status inst = ''RUNNING'' \<and> timeout m \<le> utcnow_at e i j - last_heartbeat
            then assign_and_update e i j ''UNRESPONSIVE'' st inst
            else if status inst \<in> set [''UNRESPONSIVE'', ''STARTING'', ''INITIALIZING'', ''UNKNOWN'']
                    \<and> utcnow_at e i j - last_heartbeat < timeout m
            then assign_and_update e i j ''RUNNING'' st inst
            else Continue st)"

text \<open>\<^verbatim>\<open>for instance in system.instances\<close>, from position \<open>j\<close> on. The result is the
  exception that left the loop, if any, with the state reached.\<close>

fun check_instances ::
  "PluginStatusMonitor \<Rightarrow> sweep_env \<Rightarrow> nat \<Rightarrow> nat \<Rightarrow> Instance list \<Rightarrow> System \<times> db
     \<Rightarrow> exn option \<times> System \<times> db" where
  "check_instances m e i j [] st = (None, st)"
| "check_instances m e i j (inst # rest) st =
     (case check_instance m e i j st inst of
        Continue st' \<Rightarrow> check_instances m e i (Suc j) rest st'
      | Break st' \<Rightarrow> (None, st')
      | Raise ex st' \<Rightarrow> (Some ex, st'))"

text \<open>\<^verbatim>\<open>for system in db.query(System)\<close>, from position \<open>i\<close> on. A \<^verbatim>\<open>break\<close> of the inner
  loop goes on with the next system.\<close>

fun check_systems ::
  "PluginStatusMonitor \<Rightarrow> sweep_env \<Rightarrow> nat \<Rightarrow> System list \<Rightarrow> db \<Rightarrow> exn option \<times> db" where
  "check_systems m e i [] d = (None, d)"
| "check_systems m e i (sys # rest) d =
     (case check_instances m e i 0 (instances sys) (sys, d) of
        (Some ex, st') \<Rightarrow> (Some ex, snd st')
      | (None, st') \<Rightarrow> check_systems m e (Suc i) rest (snd st'))"

definition check_status :: "PluginStatusMonitor \<Rightarrow> sweep_env \<Rightarrow> db \<Rightarrow> exn option \<times> db" where
  "check_status m e d =
     (case query_raises e of
        Some ex \<Rightarrow> (Some ex, d)
      | None \<Rightarrow> check_systems m e 0 (store d) d)"

text \<open>\<^verbatim>\<open>queue.put(self.status_request, routing_key="admin", expiration=...)\<close>\<close>

definition queue_put :: "PluginStatusMonitor \<Rightarrow> sweep_env \<Rightarrow> world \<Rightarrow> exn + world" where
  "queue_put m e w =
     (case put_raises e of
        Some ex \<Rightarrow> Inl ex
      | None \<Rightarrow> Inr (w\<lparr>queue := queue w @
          [\<lparr>command = ''_status'', command_type = ''EPHEMERAL'', routing_key = ''admin'',
            expiration = heartbeat_interval m * 1000\<rparr>]\<rparr>))"

text \<open>\<^verbatim>\<open>request_status\<close>: the \<^verbatim>\<open>try\<close> around \<^verbatim>\<open>queue.put\<close> and its \<^verbatim>\<open>except Exception\<close>.\<close>

definition request_status :: "PluginStatusMonitor \<Rightarrow> sweep_env \<Rightarrow> world \<Rightarrow> world" where
  "request_status m e w =
     (case queue_put m e w of
        Inr w' \<Rightarrow> w'
      | Inl ex \<Rightarrow> w\<lparr>logged := logged w @
          [(''WARNING'', ''Unable to publish status request: %s'', [PyStr (str_exn ex)])]\<rparr>)"

text \<open>What other components did to the store while \<^verbatim>\<open>self.wait(...)\<close> ran and
  returned \<^verbatim>\<open>False\<close>.\<close>

definition wait_returns_false :: "sweep_env \<Rightarrow> world \<Rightarrow> world" where
  "wait_returns_false e w = w\<lparr>database := (database w)\<lparr>store := during_wait e (store (database w))\<rparr>\<rparr>"

text \<open>One sweep, the body of the loop of \<^verbatim>\<open>run\<close>:
  \<^verbatim>\<open>self.request_status(); self.check_status()\<close>.\<close>

definition sweep :: "PluginStatusMonitor \<Rightarrow> sweep_env \<Rightarrow> world \<Rightarrow> exn option \<times> world" where
  "sweep m e w =
     (let w1 = request_status m e w
      in case check_status m e (database w1) of
           (outcome, d) \<Rightarrow> (outcome, w1\<lparr>database := d\<rparr>))"

text \<open>
  The loop of \<^verbatim>\<open>run\<close>: \<^verbatim>\<open>while not self.wait(self.heartbeat_interval)\<close>. The schedule
  lists the passes for which \<^verbatim>\<open>wait\<close> returned \<^verbatim>\<open>False\<close>; after the last one it returns
  \<^verbatim>\<open>True\<close> (the monitor was stopped). An exception of \<^verbatim>\<open>check_status\<close> is caught nowhere
  and leaves the loop.
\<close>

fun run_loop :: "PluginStatusMonitor \<Rightarrow> sweep_env list \<Rightarrow> world \<Rightarrow> exn option \<times> world" where
  "run_loop m [] w = (None, w)"
| "run_loop m (e # es) w =
     (case sweep m e (wait_returns_false e w) of
        (Some ex, w') \<Rightarrow> (Some ex, w')
      | (None, w') \<Rightarrow> run_loop m es w')"

definition run :: "PluginStatusMonitor \<Rightarrow> sweep_env list \<Rightarrow> world \<Rightarrow> exn option \<times> world" where
  "run m es w =
     (let w0 = w\<lparr>logged := logged w @ [(''INFO'', ''Plugin Status Monitor is started'', [])]\<rparr>
      in case run_loop m es w0 of
           (Some ex, w') \<Rightarrow> (Some ex, w')
         | (None, w') \<Rightarrow>
             (None, w'\<lparr>logged := logged w' @ [(''INFO'', ''Plugin Status Monitor is stopped'', [])]\<rparr>))"

section \<open>monitor.py: MonitorFile\<close>

text \<open>An event handed to \<^verbatim>\<open>publish\<close> is an object (always truthy); an event that was not
  configured is \<^verbatim>\<open>None\<close>.\<close>

datatype Event = Event string

text \<open>\<^verbatim>\<open>os.path.split(path)[0]\<close> on a POSIX path: everything up to the last slash, with
  trailing slashes removed unless the head consists of slashes only.\<close>

definition os_path_split_head :: "string \<Rightarrow> string" where
  "os_path_split_head p =
     (let head = rev (dropWhile (\<lambda>c. c \<noteq> CHR ''/'') (rev p))
      in if head \<noteq> [] \<and> \<not> list_all (\<lambda>c. c = CHR ''/'') head
         then rev (dropWhile (\<lambda>c. c = CHR ''/'') (rev head))
         else head)"

text \<open>
  The attribute \<^verbatim>\<open>self.file\<close> is the field \<open>watched_file\<close>. \<open>observing\<close> says that
  the handler callbacks were bound and the polling observer was scheduled and started,
  which \<^verbatim>\<open>__init__\<close> does only for a truthy path; for a falsy path the other attributes
  are never set.
\<close>

record MonitorFile =
  watched_file :: "string option"
  path :: string
  create_event :: "Event option"
  modified_event :: "Event option"
  moved_event :: "Event option"
  deleted_event :: "Event option"
  observing :: bool

text \<open>
  \<^verbatim>\<open>__init__\<close> (monitor.py, lines 77 to 108). Scheduling and starting the polling observer
  takes the first snapshot of \<^verbatim>\<open>self.path\<close>, the directory part of the path; this raises
  \<^verbatim>\<open>FileNotFoundError\<close> when that directory cannot be listed, as is the case for the
  empty directory part of a bare file name. \<open>is_dir\<close> says which directories of the file
  system can be listed.
\<close>

definition MonitorFile_init ::
  "(string \<Rightarrow> bool) \<Rightarrow> string option \<Rightarrow> Event option \<Rightarrow> Event option \<Rightarrow> Event option \<Rightarrow> Event option
     \<Rightarrow> exn + MonitorFile" where
  "MonitorFile_init is_dir p ce me mv de =
     (case p of
        Some f \<Rightarrow>
          if f \<noteq> [] then
            (if os_path_split_head f \<noteq> [] \<and> is_dir (os_path_split_head f) then
               Inr \<lparr>watched_file = p, path = os_path_split_head f, create_event = ce,
                    modified_event = me, moved_event = mv, deleted_event = de, observing = True\<rparr>
             else Inl (FileNotFoundError (os_path_split_head f)))
          else
            Inr \<lparr>watched_file = p, path = [], create_event = None, modified_event = None,
                 moved_event = None, deleted_event = None, observing = False\<rparr>
      | None \<Rightarrow>
          Inr \<lparr>watched_file = p, path = [], create_event = None, modified_event = None,
               moved_event = None, deleted_event = None, observing = False\<rparr>)"

text \<open>The callbacks; the state is the sequence of events handed to \<^verbatim>\<open>publish\<close> so far.\<close>

definition on_created :: "MonitorFile \<Rightarrow> Event list \<Rightarrow> Event list" where
  "on_created mf published =
     (case create_event mf of Some ev \<Rightarrow> published @ [ev] | None \<Rightarrow> published)"

definition on_modified :: "MonitorFile \<Rightarrow> Event list \<Rightarrow> Event list" where
  "on_modified mf published =
     (case modified_event mf of Some ev \<Rightarrow> published @ [ev] | None \<Rightarrow> published)"

definition on_moved :: "MonitorFile \<Rightarrow> Event list \<Rightarrow> Event list" where
  "on_moved mf published =
     (case moved_event mf of Some ev \<Rightarrow> published @ [ev] | None \<Rightarrow> published)"

definition on_deleted :: "MonitorFile \<Rightarrow> Event list \<Rightarrow> Event list" where
  "on_deleted mf published =
     (case deleted_event mf of Some ev \<Rightarrow> published @ [ev] | None \<Rightarrow> published)"

text \<open>
  An occurrence that the observer delivers for the watched file, by its kind. The event
  handler of the watchdog library calls the callback bound for the kind of the occurrence;
  without a started observer nothing is delivered.
\<close>

datatype occurrence = Created | Modified | Moved | Deleted

fun deliver :: "MonitorFile \<Rightarrow> occurrence \<Rightarrow> Event list \<Rightarrow> Event list" where
  "deliver mf Created published = (if observing mf then on_created mf published else published)"
| "deliver mf Modified published = (if observing mf then on_modified mf published else published)"
| "deliver mf Moved published = (if observing mf then on_moved mf published else published)"
| "deliver mf Deleted published = (if observing mf then on_deleted mf published else published)"

fun deliver_all :: "MonitorFile \<Rightarrow> occurrence list \<Rightarrow> Event list \<Rightarrow> Event list" where
  "deliver_all mf [] published = published"
| "deliver_all mf (occ # occs) published = deliver_all mf occs (deliver mf occ published)"

text \<open>The event configured for a kind of occurrence.\<close>

fun configured :: "MonitorFile \<Rightarrow> occurrence \<Rightarrow> Event option" where
  "configured mf Created = create_event mf"
| "configured mf Modified = modified_event mf"
| "configured mf Moved = moved_event mf"
| "configured mf Deleted = deleted_event mf"

text \<open>
  The polling observer of the watchdog library, as far as the watched file goes. At each
  poll it takes a snapshot of the directory and compares it with the snapshot of the poll
  before: a path of the new snapshot only is created, a path of the old one only is
  deleted, a path of both whose inode differs is deleted and created, and a path of both
  with the same inode is modified when its modification time or its size differs. The
  occurrences of one comparison are queued with the deletions first, then the
  modifications, then the creations. In a snapshot the watched file is absent or has the
  inode, modification time and size that \<^verbatim>\<open>os.stat\<close> reports. (Moves relate two paths
  of the directory and do not arise from the watched file alone.)
\<close>

record file_stat =
  st_ino :: nat
  st_mtime :: int
  st_size :: nat

definition snapshot_diff :: "file_stat option \<Rightarrow> file_stat option \<Rightarrow> occurrence list" where
  "snapshot_diff ref snapshot =
     (case ref of
        None \<Rightarrow> (case snapshot of None \<Rightarrow> [] | Some new \<Rightarrow> [Created])
      | Some old \<Rightarrow>
          (case snapshot of
             None \<Rightarrow> [Deleted]
           | Some new \<Rightarrow>
               if st_ino old \<noteq> st_ino new then [Deleted, Created]
               else if st_mtime old \<noteq> st_mtime new \<or> st_size old \<noteq> st_size new then [Modified]
               else []))"

text \<open>
  What happens in the watched directory, in order: the watched file is deleted, the watched
  file is written (created, or replaced by a file with this \<^verbatim>\<open>os.stat\<close> result), or the
  observer polls. The state is the file on disk, the snapshot of the last poll and the
  events published so far.
\<close>

datatype fs_action = DeleteFile | PutFile file_stat | Poll

fun observe ::
  "MonitorFile \<Rightarrow> fs_action list \<Rightarrow> file_stat option \<times> file_stat option \<times> Event list
     \<Rightarrow> file_stat option \<times> file_stat option \<times> Event list" where
  "observe mf [] st = st"
| "observe mf (DeleteFile # acts) (on_disk, ref, published) = observe mf acts (None, ref, published)"
| "observe mf (PutFile new # acts) (on_disk, ref, published) =
     observe mf acts (Some new, ref, published)"
| "observe mf (Poll # acts) (on_disk, ref, published) =
     observe mf acts (on_disk, on_disk, deliver_all mf (snapshot_diff ref on_disk) published)"

section \<open>local_plugins/runner.py: ProcessRunner\<close>

text \<open>
  A \<^verbatim>\<open>subprocess.Popen\<close> object as the runners use it: the attribute \<^verbatim>\<open>pid\<close> is an
  integer, and \<^verbatim>\<open>poll()\<close> returns \<^verbatim>\<open>None\<close> while the process runs and its exit status
  afterwards.
\<close>

record Popen =
  pid :: int
  returncode :: "int option"

definition poll :: "Popen \<Rightarrow> int option" where
  "poll p = returncode p"

text \<open>Calling an integer, as in \<^verbatim>\<open>self.process.pid()\<close>: Python raises \<^verbatim>\<open>TypeError\<close>.\<close>

definition call_int :: "int \<Rightarrow> exn + int" where
  "call_int n = Inl (TypeError ([CHR 0x27] @ ''int'' @ [CHR 0x27] @ '' object is not callable''))"

record ProcessRunner =
  process :: "Popen option"
  restart :: bool
  stopped :: bool
  dead :: bool
  runner_id :: string
  instance_id :: string
  runner_name :: string
  process_args :: "string list"
  capture_streams :: bool

text \<open>\<^verbatim>\<open>__init__\<close>; \<open>name\<close> is \<^verbatim>\<open>process_cwd.name\<close>.\<close>

definition ProcessRunner_init :: "string \<Rightarrow> string list \<Rightarrow> string \<Rightarrow> bool \<Rightarrow> ProcessRunner" where
  "ProcessRunner_init rid args name capture =
     \<lparr>process = None, restart = False, stopped = False, dead = False, runner_id = rid,
      instance_id = [], runner_name = name, process_args = args, capture_streams = capture\<rparr>"

text \<open>What a runner does to its surroundings: the signals sent, as (pid, signal), the
  records logged, and the number of \<^verbatim>\<open>sleep(0.1)\<close> calls made.\<close>

record runner_world =
  signals :: "(int \<times> string) list"
  rlog :: "log_record list"
  sleeps :: nat

definition log_to :: "log_record \<Rightarrow> runner_world \<Rightarrow> runner_world" where
  "log_to r w = w\<lparr>rlog := rlog w @ [r]\<rparr>"

text \<open>\<^verbatim>\<open>__str__\<close>: \<^verbatim>\<open>f"{self.runner_name}.{self.runner_id}"\<close>\<close>

definition str_runner :: "ProcessRunner \<Rightarrow> string" where
  "str_runner r = runner_name r @ ''.'' @ runner_id r"

text \<open>\<^verbatim>\<open>state()\<close>, the dictionary as a tuple in the order of its keys.\<close>

definition state :: "ProcessRunner \<Rightarrow> string \<times> string \<times> string \<times> bool \<times> bool \<times> bool" where
  "state r = (runner_name r, runner_id r, instance_id r, restart r, stopped r, dead r)"

text \<open>\<^verbatim>\<open>terminate\<close> (runner.py, lines 161 to 165). A \<^verbatim>\<open>Popen\<close> object is truthy, so
  \<^verbatim>\<open>self.process\<close> is falsy exactly when it is \<^verbatim>\<open>None\<close>.\<close>

definition terminate ::
  "ProcessRunner \<Rightarrow> runner_world \<Rightarrow> exn option \<times> ProcessRunner \<times> runner_world" where
  "terminate r w =
     (case process r of
        None \<Rightarrow> (None, r, w)
      | Some p \<Rightarrow>
          if poll p = None then
            (let w1 = log_to (''DEBUG'', ''About to send SIGINT'', []) w
             in case call_int (pid p) of
                  Inl ex \<Rightarrow> (Some ex, r, w1)
                | Inr n \<Rightarrow> (None, r, w1\<lparr>signals := signals w1 @ [(n, ''SIGINT'')]\<rparr>))
          else (None, r, w))"

text \<open>\<^verbatim>\<open>kill\<close> (runner.py, lines 167 to 171); \<^verbatim>\<open>Popen.kill()\<close> sends \<^verbatim>\<open>SIGKILL\<close> to the
  process.\<close>

definition kill ::
  "ProcessRunner \<Rightarrow> runner_world \<Rightarrow> exn option \<times> ProcessRunner \<times> runner_world" where
  "kill r w =
     (case process r of
        None \<Rightarrow> (None, r, w)
      | Some p \<Rightarrow>
          if poll p = None then
            (let w1 = log_to (''WARNING'', ''About to send SIGKILL'', []) w
             in (None, r, w1\<lparr>signals := signals w1 @ [(pid p, ''SIGKILL'')]\<rparr>))
          else (None, r, w))"

text \<open>
  What the surroundings answer while a runner runs: whether \<^verbatim>\<open>subprocess.Popen(...)\<close>
  raises or which process it returns, whether starting the reader threads (with their log
  files), waiting for the process and joining the threads raise, how many \<^verbatim>\<open>poll()\<close>
  calls of a polling loop still find the process running, its exit status, and what
  \<^verbatim>\<open>self.stopped()\<close> returns for a stoppable thread.
\<close>

record run_env =
  popen_result :: "exn + Popen"
  threads_start_raises :: "exn option"
  wait_raises :: "exn option"
  threads_join_raises :: "exn option"
  polls_until_exit :: nat
  exit_status :: int
  thread_stopped :: bool

text \<open>The repr of a list of strings, as an f-string prints \<^verbatim>\<open>process_args\<close> (quotes inside
  an argument are not escaped here).\<close>

fun repr_items :: "string list \<Rightarrow> string" where
  "repr_items [] = []"
| "repr_items [a] = [CHR 0x27] @ a @ [CHR 0x27]"
| "repr_items (a # b # rest) = [CHR 0x27] @ a @ [CHR 0x27] @ '', '' @ repr_items (b # rest)"

definition repr_list :: "string list \<Rightarrow> string" where
  "repr_list xs = ''['' @ repr_items xs @ '']''"

text \<open>\<^verbatim>\<open>StreamReader.__enter__\<close> and \<^verbatim>\<open>__exit__\<close>: nothing happens unless streams are
  captured.\<close>

definition StreamReader_enter :: "run_env \<Rightarrow> ProcessRunner \<Rightarrow> exn option" where
  "StreamReader_enter e r = (if \<not> capture_streams r then None else threads_start_raises e)"

definition StreamReader_exit :: "run_env \<Rightarrow> ProcessRunner \<Rightarrow> exn option" where
  "StreamReader_exit e r = (if \<not> capture_streams r then None else threads_join_raises e)"

text \<open>
  The \<^verbatim>\<open>try\<close> block of \<^verbatim>\<open>ProcessRunner.run\<close> (runner.py, lines 182 to 201), with the
  exception that leaves it, if any. When the body of the \<^verbatim>\<open>with\<close> statement raises,
  \<^verbatim>\<open>__exit__\<close> still runs; it returns \<^verbatim>\<open>None\<close>, so the exception goes on, unless
  \<^verbatim>\<open>__exit__\<close> raises itself.
\<close>

definition ProcessRunner_try ::
  "run_env \<Rightarrow> ProcessRunner \<Rightarrow> runner_world \<Rightarrow> exn option \<times> ProcessRunner \<times> runner_world" where
  "ProcessRunner_try e r w =
     (case popen_result e of
        Inl ex \<Rightarrow> (Some ex, r, w)
      | Inr p \<Rightarrow>
          (let r1 = r\<lparr>process := Some p\<rparr> in
           case StreamReader_enter e r1 of
             Some ex \<Rightarrow> (Some ex, r1, w)
           | None \<Rightarrow>
               (case wait_raises e of
                  Some ex \<Rightarrow>
                    (case StreamReader_exit e r1 of
                       Some ex2 \<Rightarrow> (Some ex2, r1, w)
                     | None \<Rightarrow> (Some ex, r1, w))
                | None \<Rightarrow>
                    (let r2 = r1\<lparr>process := Some (p\<lparr>returncode := Some (exit_status e)\<rparr>)\<rparr> in
                     case StreamReader_exit e r2 of
                       Some ex \<Rightarrow> (Some ex, r2, w)
                     | None \<Rightarrow>
                         (let w1 = (if instance_id r2 = [] then
                                      log_to (''WARNING'', ''Plugin '' @ str_runner r2 @
                                        '' terminated before successfully initializing.'', []) w
                                    else w)
                          in (None, r2, log_to (''DEBUG'', ''Plugin is officially stopped'', []) w1))))))"

text \<open>\<^verbatim>\<open>ProcessRunner.run\<close>: the \<^verbatim>\<open>except Exception\<close> clause logs with
  \<^verbatim>\<open>logger.exception\<close>, that is at level ERROR.\<close>

definition ProcessRunner_run ::
  "run_env \<Rightarrow> ProcessRunner \<Rightarrow> runner_world \<Rightarrow> exn option \<times> ProcessRunner \<times> runner_world" where
  "ProcessRunner_run e r w =
     (let w0 = log_to (''DEBUG'', ''Starting process with args '' @ repr_list (process_args r), []) w
      in case ProcessRunner_try e r w0 of
           (None, r', w') \<Rightarrow> (None, r', w')
         | (Some ex, r', w') \<Rightarrow>
             (None, r', log_to (''ERROR'', ''Plugin '' @ str_runner r' @ '' died: '' @ str_exn ex, []) w'))"

section \<open>Reading the streams of the process\<close>

text \<open>
  A stream as its reader thread sees it: \<open>pending\<close> holds the raw lines that
  \<^verbatim>\<open>readline()\<close> will return from now on, in the order the process wrote them; after
  them \<^verbatim>\<open>readline()\<close> returns the empty string (end of file). \<open>sink\<close> is what was
  handed to the logger of the stream, as (level, line), and \<open>runner_notes\<close> what was logged to
  the logger of the runner.
\<close>

record stream_io =
  pending :: "string list"
  sink :: "(string \<times> string) list"
  runner_notes :: "log_record list"

text \<open>\<^verbatim>\<open>str.isspace\<close> on the characters below 128, and \<^verbatim>\<open>str.rstrip()\<close>.\<close>

definition py_isspace :: "char \<Rightarrow> bool" where
  "py_isspace c \<longleftrightarrow> c \<in> set [CHR 0x09, CHR 0x0A, CHR 0x0B, CHR 0x0C, CHR 0x0D,
                              CHR 0x1C, CHR 0x1D, CHR 0x1E, CHR 0x1F, CHR 0x20]"

definition rstrip :: "string \<Rightarrow> string" where
  "rstrip s = rev (dropWhile py_isspace (rev s))"

text \<open>
  \<^verbatim>\<open>for raw_line in stream_reader\<close> with \<^verbatim>\<open>stream_reader = iter(stream.readline, "")\<close>.
  The flag says whether the iterator is exhausted: once \<^verbatim>\<open>readline()\<close> has returned the
  sentinel the iterator yields nothing any more. The function \<open>f\<close> is the loop body.
\<close>

fun for_raw_lines ::
  "(string \<Rightarrow> stream_io \<Rightarrow> stream_io) \<Rightarrow> bool \<Rightarrow> string list \<Rightarrow> stream_io \<Rightarrow> bool \<times> stream_io" where
  "for_raw_lines f True ps io = (True, io\<lparr>pending := ps\<rparr>)"
| "for_raw_lines f False [] io = (True, io\<lparr>pending := []\<rparr>)"
| "for_raw_lines f False (raw_line # ps) io =
     (if raw_line = [] then (True, io\<lparr>pending := ps\<rparr>)
      else for_raw_lines f False ps (f raw_line io))"

text \<open>\<^verbatim>\<open>logger.info(raw_line.rstrip())\<close>, the body of the loop of \<^verbatim>\<open>read_stream\<close>.\<close>

definition log_info_line :: "string \<Rightarrow> stream_io \<Rightarrow> stream_io" where
  "log_info_line raw_line io = io\<lparr>sink := sink io @ [(''INFO'', rstrip raw_line)]\<rparr>"

text \<open>
  \<^verbatim>\<open>read_stream\<close> (runner.py, lines 22 to 27): \<^verbatim>\<open>while process.poll() is None\<close> around
  the loop over the lines. The first argument is the number of \<^verbatim>\<open>poll()\<close> calls, from
  the first one of this thread on, that still find the process running.
\<close>

fun read_stream_loop :: "nat \<Rightarrow> bool \<Rightarrow> stream_io \<Rightarrow> bool \<times> stream_io" where
  "read_stream_loop 0 exhausted io = (exhausted, io)"
| "read_stream_loop (Suc n) exhausted io =
     (case for_raw_lines log_info_line exhausted (pending io) io of
        (exhausted', io') \<Rightarrow> read_stream_loop n exhausted' io')"

definition read_stream :: "nat \<Rightarrow> stream_io \<Rightarrow> stream_io" where
  "read_stream polls_running io = snd (read_stream_loop polls_running False io)"

section \<open>local_plugins/plugin_runner.py: PluginRunner\<close>

text \<open>
  The attributes \<^verbatim>\<open>process\<close> and \<^verbatim>\<open>process_args\<close> of a \<^verbatim>\<open>PluginRunner\<close> are the
  fields \<open>plugin_process\<close> and \<open>plugin_args\<close>. \<open>log_levels\<close> is what \<^verbatim>\<open>getLogLevels()\<close>
  of \<^verbatim>\<open>beer_garden.local_plugins.logger\<close> returned, a list of level names.
\<close>

record PluginRunner =
  unique_name :: string
  plugin_args :: "string list"
  plugin_process :: "Popen option"
  log_levels :: "string list"

definition PluginRunner_init :: "string \<Rightarrow> string list \<Rightarrow> string list \<Rightarrow> PluginRunner" where
  "PluginRunner_init name args levels =
     \<lparr>unique_name = name, plugin_args = args, plugin_process = None, log_levels = levels\<rparr>"

text \<open>\<^verbatim>\<open>PluginRunner.kill\<close> (plugin_runner.py, lines 61 to 66).\<close>

definition PluginRunner_kill ::
  "PluginRunner \<Rightarrow> runner_world \<Rightarrow> exn option \<times> PluginRunner \<times> runner_world" where
  "PluginRunner_kill r w =
     (case plugin_process r of
        None \<Rightarrow> (None, r, w)
      | Some p \<Rightarrow>
          if poll p = None then
            (let w1 = log_to (''WARNING'', ''About to kill plugin %s'', [PyStr (unique_name r)]) w;
                 w2 = w1\<lparr>signals := signals w1 @ [(pid p, ''SIGKILL'')]\<rparr>
             in (None, r, log_to (''WARNING'', ''Plugin %s has been killed'', [PyStr (unique_name r)]) w2))
          else (None, r, w))"

text \<open>\<^verbatim>\<open>while self.process.poll() is None: sleep(0.1)\<close>\<close>

fun spin :: "nat \<Rightarrow> runner_world \<Rightarrow> runner_world" where
  "spin 0 w = w"
| "spin (Suc n) w = spin n (w\<lparr>sleeps := Suc (sleeps w)\<rparr>)"

text \<open>The \<^verbatim>\<open>try\<close> block of \<^verbatim>\<open>PluginRunner.run\<close> (plugin_runner.py, lines 76 to 123).\<close>

definition PluginRunner_try ::
  "run_env \<Rightarrow> PluginRunner \<Rightarrow> runner_world \<Rightarrow> exn option \<times> PluginRunner \<times> runner_world" where
  "PluginRunner_try e r w =
     (let w0 = log_to (''INFO'', ''Starting plugin '' @ unique_name r @ '' subprocess: '' @
                         repr_list (plugin_args r), []) w
      in case popen_result e of
           Inl ex \<Rightarrow> (Some ex, r, w0)
         | Inr p \<Rightarrow>
             (let r1 = r\<lparr>plugin_process := Some p\<rparr> in
              case threads_start_raises e of
                Some ex \<Rightarrow> (Some ex, r1, w0)
              | None \<Rightarrow>
                  (let w1 = spin (polls_until_exit e) w0;
                       r2 = r1\<lparr>plugin_process := Some (p\<lparr>returncode := Some (exit_status e)\<rparr>)\<rparr>;
                       w2 = log_to (''INFO'',
                              ''Plugin %s subprocess has stopped with exit status %s, performing final IO read(s)'',
                              [PyStr (unique_name r), PyInt (exit_status e)]) w1
                   in case threads_join_raises e of
                        Some ex \<Rightarrow> (Some ex, r2, w2)
                      | None \<Rightarrow>
                          (let w3 = (if \<not> thread_stopped e then
                                       log_to (''ERROR'', ''Plugin %s unexpectedly shutdown!'',
                                               [PyStr (unique_name r)]) w2
                                     else w2)
                           in (None, r2, log_to (''INFO'', ''Plugin %s is officially stopped'',
                                                   [PyStr (unique_name r)]) w3)))))"

definition PluginRunner_run ::
  "run_env \<Rightarrow> PluginRunner \<Rightarrow> runner_world \<Rightarrow> exn option \<times> PluginRunner \<times> runner_world" where
  "PluginRunner_run e r w =
     (case PluginRunner_try e r w of
        (None, r', w') \<Rightarrow> (None, r', w')
      | (Some ex, r', w') \<Rightarrow>
          (None, r', log_to (''ERROR'', str_exn ex, [])
                       (log_to (''ERROR'', ''Plugin %s died'', [PyStr (unique_name r')]) w')))"

text \<open>\<^verbatim>\<open>line.find(level) != -1\<close>: the level name occurs in the line.\<close>

fun starts_with :: "string \<Rightarrow> string \<Rightarrow> bool" where
  "starts_with s [] = True"
| "starts_with [] (c # cs) = False"
| "starts_with (x # xs) (c # cs) = (x = c \<and> starts_with xs cs)"

fun contains :: "string \<Rightarrow> string \<Rightarrow> bool" where
  "contains [] sub = (sub = [])"
| "contains (x # xs) sub = (starts_with (x # xs) sub \<or> contains xs sub)"

text \<open>The search for the level of a line in \<^verbatim>\<open>_check_io\<close>; a level is written by its
  name.\<close>

fun level_to_log :: "string list \<Rightarrow> string \<Rightarrow> string \<Rightarrow> string" where
  "level_to_log [] default_level line = default_level"
| "level_to_log (level # levels) default_level line =
     (if contains line level then level else level_to_log levels default_level line)"

definition log_line :: "PluginRunner \<Rightarrow> string \<Rightarrow> string \<Rightarrow> stream_io \<Rightarrow> stream_io" where
  "log_line r default_level raw_line io =
     (let line = rstrip raw_line
      in io\<lparr>sink := sink io @ [(level_to_log (log_levels r) default_level line, line)]\<rparr>)"

text \<open>
  \<^verbatim>\<open>_check_io\<close> (plugin_runner.py, lines 142 to 157): read to the end of the stream,
  then call itself again while \<^verbatim>\<open>poll()\<close> finds the process running. The third argument
  is the number of \<^verbatim>\<open>poll()\<close> calls that still do.
\<close>

fun check_io :: "PluginRunner \<Rightarrow> string \<Rightarrow> nat \<Rightarrow> stream_io \<Rightarrow> stream_io" where
  "check_io r default_level 0 io =
     snd (for_raw_lines (log_line r default_level) False (pending io) io)"
| "check_io r default_level (Suc n) io =
     (let io' = snd (for_raw_lines (log_line r default_level) False (pending io) io)
      in check_io r default_level n
           (io'\<lparr>runner_notes := runner_notes io' @
              [(''DEBUG'', ''Process isn'' @ [CHR 0x27] @ ''t quite dead yet, reading IO again'', [])]\<rparr>))"

section \<open>The transition table of the specification and relations for the proofs\<close>

text \<open>
  The table of the Liveness Monitor as the specification words it: the next status from
  the timeout, the time read, the current status and the last heartbeat, where an absent
  heartbeat falls under "any other combination".
\<close>

definition spec_next_status :: "int \<Rightarrow> int \<Rightarrow> string \<Rightarrow> int option \<Rightarrow> string" where
  "spec_next_status tmo now st hb =
     (case hb of
        None \<Rightarrow> st
      | Some t \<Rightarrow>
          if st = ''RUNNING'' \<and> now - t \<ge> tmo then ''UNRESPONSIVE''
          else if st \<in> {''UNRESPONSIVE'', ''STARTING'', ''INITIALIZING'', ''UNKNOWN''} \<and> now - t < tmo
          then ''RUNNING''
          else st)"

text \<open>The last heartbeat of an instance: absent when the key is missing or its value is
  \<^verbatim>\<open>None\<close>.\<close>

definition lastHeartbeat :: "Instance \<Rightarrow> int option" where
  "lastHeartbeat inst = (case status_info inst ''heartbeat'' of None \<Rightarrow> None | Some h \<Rightarrow> h)"

definition swept_instance :: "PluginStatusMonitor \<Rightarrow> int \<Rightarrow> Instance \<Rightarrow> Instance" where
  "swept_instance m now inst =
     inst\<lparr>status := spec_next_status (timeout m) now (status inst) (lastHeartbeat inst)\<rparr>"

text \<open>The table applied to the instances of a system from position \<open>j\<close> on, and to the
  systems from position \<open>i\<close> on, each instance with the time read for it.\<close>

fun swept_instances :: "PluginStatusMonitor \<Rightarrow> sweep_env \<Rightarrow> nat \<Rightarrow> nat \<Rightarrow> Instance list \<Rightarrow> Instance list" where
  "swept_instances m e i j [] = []"
| "swept_instances m e i j (inst # rest) =
     swept_instance m (utcnow_at e i j) inst # swept_instances m e i (Suc j) rest"

fun swept_systems :: "PluginStatusMonitor \<Rightarrow> sweep_env \<Rightarrow> nat \<Rightarrow> System list \<Rightarrow> System list" where
  "swept_systems m e i [] = []"
| "swept_systems m e i (sys # rest) =
     sys\<lparr>instances := swept_instances m e i 0 (instances sys)\<rparr> # swept_systems m e (Suc i) rest"

text \<open>What a sweep may do to an instance in any circumstances: nothing, or assign one of
  the two statuses to an instance that has a heartbeat. A system keeps everything but the
  statuses of its instances.\<close>

definition inst_rel :: "Instance \<Rightarrow> Instance \<Rightarrow> bool" where
  "inst_rel a b \<longleftrightarrow>
     b = a \<or> (\<exists>s t. (s = ''UNRESPONSIVE'' \<or> s = ''RUNNING'')
                 \<and> status_info a ''heartbeat'' = Some (Some t) \<and> b = a\<lparr>status := s\<rparr>)"

definition sys_rel :: "System \<Rightarrow> System \<Rightarrow> bool" where
  "sys_rel a b \<longleftrightarrow> (\<exists>xs. list_all2 inst_rel (instances a) xs \<and> b = a\<lparr>instances := xs\<rparr>)"

text \<open>The assignments \<open>ws\<close> made by a loop that ended with \<open>outcome\<close>: each assigns one
  of the two statuses, and an assignment whose \<^verbatim>\<open>db.update\<close> raises is the last one, its
  exception being the outcome.\<close>

definition write_ok :: "sweep_env \<Rightarrow> exn option \<Rightarrow> (nat \<times> nat \<times> string) list \<Rightarrow> bool" where
  "write_ok e outcome ws \<longleftrightarrow>
     (\<forall>w\<in>set ws. snd (snd w) = ''UNRESPONSIVE'' \<or> snd (snd w) = ''RUNNING'')
   \<and> (\<forall>w\<in>set ws. \<forall>ex. update_raises e (fst w) (fst (snd w)) = Some ex
          \<longrightarrow> outcome = Some ex \<and> last ws = w)"

section \<open>Concrete inputs\<close>

text \<open>A monitor with the default period and timeout, an instance with a given status and
  heartbeat entry, and surroundings in which nothing fails, the monitor is not stopped and
  every clock reading is \<open>now\<close>.\<close>

definition default_monitor :: PluginStatusMonitor where
  "default_monitor = PluginStatusMonitor_init 10 30"

definition instance_with :: "string \<Rightarrow> string \<Rightarrow> int option \<Rightarrow> Instance" where
  "instance_with n st hb = \<lparr>inst_name = n, status = st, status_info = [''heartbeat'' \<mapsto> hb]\<rparr>"

definition calm_env :: "int \<Rightarrow> sweep_env" where
  "calm_env now =
     \<lparr>during_wait = (\<lambda>systems. systems), put_raises = None, query_raises = None,
      stopped_at = (\<lambda>i j. False), utcnow_at = (\<lambda>i j. now), update_raises = (\<lambda>i j. None)\<rparr>"

text \<open>One system with one instance, and one system with two instances whose heartbeats
  are the same.\<close>

definition one_instance_db :: "string \<Rightarrow> int option \<Rightarrow> db" where
  "one_instance_db st hb =
     \<lparr>store = [\<lparr>sys_name = ''echo'', instances = [instance_with ''default'' st hb]\<rparr>], writes = []\<rparr>"

definition two_instance_db :: "string \<Rightarrow> string \<Rightarrow> int option \<Rightarrow> db" where
  "two_instance_db st1 st2 hb =
     \<lparr>store = [\<lparr>sys_name = ''echo'',
                instances = [instance_with ''first'' st1 hb, instance_with ''second'' st2 hb]\<rparr>],
      writes = []\<rparr>"

text \<open>One system whose first instance has no entry \<^verbatim>\<open>"heartbeat"\<close> at all and whose
  second instance is RUNNING with a heartbeat at time 0.\<close>

definition keyless_first_db :: db where
  "keyless_first_db =
     \<lparr>store = [\<lparr>sys_name = ''echo'',
                instances = [\<lparr>inst_name = ''first'', status = ''RUNNING'', status_info = Map.empty\<rparr>,
                             instance_with ''second'' ''RUNNING'' (Some 0)]\<rparr>],
      writes = []\<rparr>"

text \<open>Surroundings in which the monitor is being stopped, and surroundings in which the
  store refuses the update of the first instance of the first system.\<close>

definition stopping_env :: "int \<Rightarrow> sweep_env" where
  "stopping_env now = (calm_env now)\<lparr>stopped_at := (\<lambda>i j. True)\<rparr>"

definition failing_update_env :: "int \<Rightarrow> sweep_env" where
  "failing_update_env now =
     (calm_env now)\<lparr>update_raises :=
        (\<lambda>i j. if i = 0 \<and> j = 0 then Some (Exception ''store unreachable'') else None)\<rparr>"

definition failing_put_env :: "int \<Rightarrow> sweep_env" where
  "failing_put_env now = (calm_env now)\<lparr>put_raises := Some (Exception ''broker unreachable'')\<rparr>"

definition world_of :: "db \<Rightarrow> world" where
  "world_of d = \<lparr>database = d, queue = [], logged = []\<rparr>"

text \<open>A runner whose process, with pid 4242, is running; surroundings in which nothing
  has happened yet; a launch that fails; and a stream on which the process wrote one line
  before it exited.\<close>

definition running_runner :: ProcessRunner where
  "running_runner =
     (ProcessRunner_init ''r1'' [''python'', ''main.py''] ''echo'' True)
       \<lparr>process := Some \<lparr>pid = 4242, returncode = None\<rparr>\<rparr>"

definition quiet_world :: runner_world where
  "quiet_world = \<lparr>signals = [], rlog = [], sleeps = 0\<rparr>"

definition failing_launch :: run_env where
  "failing_launch =
     \<lparr>popen_result = Inl (Exception ''No such file or directory''), threads_start_raises = None,
      wait_raises = None, threads_join_raises = None, polls_until_exit = 0, exit_status = 0,
      thread_stopped = False\<rparr>"

text \<open>A launch whose process 4242 is spawned and running when opening the log files of
  the reader threads fails.\<close>

definition failing_reader_start :: run_env where
  "failing_reader_start =
     \<lparr>popen_result = Inr \<lparr>pid = 4242, returncode = None\<rparr>,
      threads_start_raises = Some (Exception ''Permission denied''),
      wait_raises = None, threads_join_raises = None, polls_until_exit = 0, exit_status = 0,
      thread_stopped = False\<rparr>"

text \<open>A file system in which \<^verbatim>\<open>/etc/beer\<close> is the only directory, a watcher of
  \<^verbatim>\<open>/etc/beer/plugins.yaml\<close> with all four events configured, and two results of
  \<^verbatim>\<open>os.stat\<close> with the same inode and size and different modification times.\<close>

definition only_etc_beer :: "string \<Rightarrow> bool" where
  "only_etc_beer d \<longleftrightarrow> d = ''/etc/beer''"

definition plugins_yaml_watcher :: MonitorFile where
  "plugins_yaml_watcher =
     \<lparr>watched_file = Some ''/etc/beer/plugins.yaml'', path = ''/etc/beer'',
      create_event = Some (Event ''created''), modified_event = Some (Event ''modified''),
      moved_event = Some (Event ''moved''), deleted_event = Some (Event ''deleted''),
      observing = True\<rparr>"

definition stat_before :: file_stat where
  "stat_before = \<lparr>st_ino = 7, st_mtime = 100, st_size = 5\<rparr>"

definition stat_after :: file_stat where
  "stat_after = \<lparr>st_ino = 7, st_mtime = 200, st_size = 5\<rparr>"

definition hello_stream :: stream_io where
  "hello_stream = \<lparr>pending = [''hello'' @ [CHR 0x0A]], sink = [], runner_notes = []\<rparr>"

definition python_log_levels :: "string list" where
  "python_log_levels =
     [''CRITICAL'', ''FATAL'', ''ERROR'', ''WARN'', ''WARNING'', ''INFO'', ''DEBUG'', ''NOTSET'']"

section \<open>The sweep of the Liveness Monitor\<close>

lemma inst_rel_refl: "inst_rel a a"
  by (simp add: inst_rel_def)

lemma list_all2_inst_rel_refl: "list_all2 inst_rel xs xs"
  by (simp add: list_all2_refl inst_rel_refl)

lemma sys_rel_refl: "sys_rel a a"
  unfolding sys_rel_def by (rule exI [of _ "instances a"]) (simp add: list_all2_inst_rel_refl)

lemma list_all2_sys_rel_refl: "list_all2 sys_rel xs xs"
  by (simp add: list_all2_refl sys_rel_refl)

lemma check_instance_cases:
  "check_instance m e i j st inst = Break st
   \<or> check_instance m e i j st inst = Raise (KeyError ''heartbeat'') st
   \<or> check_instance m e i j st inst = Continue st
   \<or> (\<exists>s t. (s = ''UNRESPONSIVE'' \<or> s = ''RUNNING'')
         \<and> status_info inst ''heartbeat'' = Some (Some t)
         \<and> check_instance m e i j st inst = assign_and_update e i j s st inst)"
  unfolding check_instance_def by (auto split: option.splits)

lemma assign_and_update_cases:
  "(\<exists>ex. update_raises e i j = Some ex \<and> assign_and_update e i j s (sys, d) inst =
      Raise ex (sys\<lparr>instances := (instances sys)[j := inst\<lparr>status := s\<rparr>]\<rparr>,
                d\<lparr>writes := writes d @ [(i, j, s)]\<rparr>))
   \<or> (update_raises e i j = None \<and> assign_and_update e i j s (sys, d) inst =
      Continue (sys\<lparr>instances := (instances sys)[j := inst\<lparr>status := s\<rparr>]\<rparr>,
                d\<lparr>writes := writes d @ [(i, j, s)],
                  store := (store d)[i := sys\<lparr>instances := (instances sys)[j := inst\<lparr>status := s\<rparr>]\<rparr>]\<rparr>))"
  by (cases "update_raises e i j") (simp_all add: assign_and_update_def Let_def)

lemma store_update_same:
  assumes "store d ! i = sys" "instances sys = xs"
  shows "(store d)[i := sys\<lparr>instances := xs\<rparr>] = store d"
proof -
  have "sys\<lparr>instances := xs\<rparr> = sys" using assms(2) by auto
  then have "sys\<lparr>instances := xs\<rparr> = store d ! i" using assms(1) by simp
  then show ?thesis by (metis list_update_id)
qed

lemma check_instances_frame:
  "i < length (store d) \<Longrightarrow> store d ! i = sys \<Longrightarrow> instances sys = pre @ rest \<Longrightarrow> j = length pre \<Longrightarrow>
   \<exists>xs. list_all2 inst_rel rest xs
      \<and> store (snd (snd (check_instances m e i j rest (sys, d))))
          = (store d)[i := sys\<lparr>instances := pre @ xs\<rparr>]"
proof (induction rest arbitrary: sys d pre j)
  case Nil
  show ?case using store_update_same [OF Nil.prems(2) Nil.prems(3)] by simp
next
  case (Cons inst rest)
  have same: "(store d)[i := sys\<lparr>instances := pre @ inst # rest\<rparr>] = store d"
    by (rule store_update_same [OF Cons.prems(2) Cons.prems(3)])
  have stay: "\<exists>xs. list_all2 inst_rel (inst # rest) xs
      \<and> store d = (store d)[i := sys\<lparr>instances := pre @ xs\<rparr>]"
    using same list_all2_inst_rel_refl [of "inst # rest"] by metis
  consider
      (brk) "check_instance m e i j (sys, d) inst = Break (sys, d)"
    | (key) "check_instance m e i j (sys, d) inst = Raise (KeyError ''heartbeat'') (sys, d)"
    | (cont) "check_instance m e i j (sys, d) inst = Continue (sys, d)"
    | (upd) s t where "s = ''UNRESPONSIVE'' \<or> s = ''RUNNING''"
        "status_info inst ''heartbeat'' = Some (Some t)"
        "check_instance m e i j (sys, d) inst = assign_and_update e i j s (sys, d) inst"
    using check_instance_cases [of m e i j "(sys, d)" inst] by blast
  then show ?case
  proof cases
    case brk
    then show ?thesis using stay by simp
  next
    case key
    then show ?thesis using stay by simp
  next
    case cont
    have "instances sys = (pre @ [inst]) @ rest" using Cons.prems by simp
    from Cons.IH [OF Cons.prems(1) Cons.prems(2) this, of "Suc j"] Cons.prems(4)
    obtain xs where xs: "list_all2 inst_rel rest xs"
      "store (snd (snd (check_instances m e i (Suc j) rest (sys, d))))
         = (store d)[i := sys\<lparr>instances := (pre @ [inst]) @ xs\<rparr>]"
      by auto
    have "list_all2 inst_rel (inst # rest) (inst # xs)"
      using xs(1) by (simp add: inst_rel_refl)
    then show ?thesis using xs(2) cont by (intro exI [of _ "inst # xs"]) simp
  next
    case upd
    let ?inst' = "inst\<lparr>status := s\<rparr>"
    let ?sys' = "sys\<lparr>instances := (instances sys)[j := ?inst']\<rparr>"
    have rel: "inst_rel inst ?inst'"
      using upd(1,2) unfolding inst_rel_def by blast
    have upd_list: "(instances sys)[j := ?inst'] = (pre @ [?inst']) @ rest"
      using Cons.prems by simp
    from assign_and_update_cases [of e i j s sys d inst]
    show ?thesis
    proof (elim disjE exE conjE)
      fix ex
      assume "assign_and_update e i j s (sys, d) inst =
        Raise ex (?sys', d\<lparr>writes := writes d @ [(i, j, s)]\<rparr>)"
      then show ?thesis using stay upd(3) by simp
    next
      let ?d' = "d\<lparr>writes := writes d @ [(i, j, s)], store := (store d)[i := ?sys']\<rparr>"
      assume a: "assign_and_update e i j s (sys, d) inst = Continue (?sys', ?d')"
      have p1: "i < length (store ?d')" using Cons.prems by simp
      have p2: "store ?d' ! i = ?sys'" using Cons.prems by simp
      have p3: "instances ?sys' = (pre @ [?inst']) @ rest" using upd_list by simp
      from Cons.IH [OF p1 p2 p3, of "Suc j"] Cons.prems(4)
      obtain xs where xs: "list_all2 inst_rel rest xs"
        "store (snd (snd (check_instances m e i (Suc j) rest (?sys', ?d'))))
           = (store ?d')[i := ?sys'\<lparr>instances := (pre @ [?inst']) @ xs\<rparr>]"
        by auto
      have "list_all2 inst_rel (inst # rest) (?inst' # xs)"
        using xs(1) rel by simp
      then show ?thesis using xs(2) a upd(3)
        by (intro exI [of _ "?inst' # xs"]) simp
    qed
  qed
qed

lemma check_systems_frame:
  "store d = pre @ rest \<Longrightarrow> i = length pre \<Longrightarrow>
   \<exists>ys. list_all2 sys_rel rest ys \<and> store (snd (check_systems m e i rest d)) = pre @ ys"
proof (induction rest arbitrary: d pre i)
  case Nil
  then show ?case by simp
next
  case (Cons sys rest)
  have p1: "i < length (store d)" using Cons.prems by simp
  have p2: "store d ! i = sys" using Cons.prems by simp
  obtain r where r: "check_instances m e i 0 (instances sys) (sys, d) = r" by simp
  have p3: "instances sys = [] @ instances sys" and p4: "0 = length ([]::Instance list)" by simp_all
  from check_instances_frame [OF p1 p2 p3 p4, of m e] r
  obtain xs where xs: "list_all2 inst_rel (instances sys) xs"
    "store (snd (snd r)) = (store d)[i := sys\<lparr>instances := xs\<rparr>]"
    by auto
  let ?sys' = "sys\<lparr>instances := xs\<rparr>"
  have rel: "sys_rel sys ?sys'" using xs(1) unfolding sys_rel_def by blast
  have st: "store (snd (snd r)) = (pre @ [?sys']) @ rest"
    using xs(2) Cons.prems by simp
  show ?case
  proof (cases "fst r")
    case None
    have "Suc i = length (pre @ [?sys'])" using Cons.prems(2) by simp
    from Cons.IH [OF st this]
    obtain ys where ys: "list_all2 sys_rel rest ys"
      "store (snd (check_systems m e (Suc i) rest (snd (snd r)))) = (pre @ [?sys']) @ ys"
      by auto
    have "list_all2 sys_rel (sys # rest) (?sys' # ys)" using rel ys(1) by simp
    then show ?thesis using ys(2) None r
      by (intro exI [of _ "?sys' # ys"]) (simp add: case_prod_unfold)
  next
    case (Some ex)
    have "list_all2 sys_rel (sys # rest) (?sys' # rest)"
      using rel by (simp add: list_all2_sys_rel_refl)
    then show ?thesis using st Some r
      by (intro exI [of _ "?sys' # rest"]) (simp add: case_prod_unfold)
  qed
qed

lemma check_status_frame:
  "list_all2 sys_rel (store d) (store (snd (check_status m e d)))"
proof (cases "query_raises e")
  case None
  have "store d = [] @ store d" and "0 = length ([]::System list)" by simp_all
  from check_systems_frame [OF this, of m e]
  show ?thesis using None by (auto simp: check_status_def)
next
  case (Some ex)
  then show ?thesis by (simp add: check_status_def list_all2_sys_rel_refl)
qed

lemma check_status_inst_rel:
  assumes "i < length (store d)" "j < length (instances (store d ! i))"
  shows "length (store (snd (check_status m e d))) = length (store d)
    \<and> length (instances (store (snd (check_status m e d)) ! i)) = length (instances (store d ! i))
    \<and> inst_rel (instances (store d ! i) ! j) (instances (store (snd (check_status m e d)) ! i) ! j)"
proof -
  let ?d' = "snd (check_status m e d)"
  have all: "list_all2 sys_rel (store d) (store ?d')" by (rule check_status_frame)
  then have len: "length (store ?d') = length (store d)" by (simp add: list_all2_lengthD)
  have "sys_rel (store d ! i) (store ?d' ! i)" using all assms(1) by (rule list_all2_nthD)
  then obtain xs where xs: "list_all2 inst_rel (instances (store d ! i)) xs"
    "store ?d' ! i = (store d ! i)\<lparr>instances := xs\<rparr>"
    unfolding sys_rel_def by blast
  have ins: "instances (store ?d' ! i) = xs" using xs(2) by simp
  have "inst_rel (instances (store d ! i) ! j) (xs ! j)" using xs(1) assms(2) by (rule list_all2_nthD)
  moreover have "length xs = length (instances (store d ! i))"
    using xs(1) by (simp add: list_all2_lengthD)
  ultimately show ?thesis using len ins by simp
qed

lemma write_ok_Nil: "write_ok e outcome []"
  by (simp add: write_ok_def)

lemma write_ok_single:
  "s = ''UNRESPONSIVE'' \<or> s = ''RUNNING'' \<Longrightarrow> update_raises e i j = Some ex
   \<Longrightarrow> write_ok e (Some ex) [(i, j, s)]"
  by (simp add: write_ok_def)

lemma write_ok_Cons:
  "s = ''UNRESPONSIVE'' \<or> s = ''RUNNING'' \<Longrightarrow> update_raises e i j = None
   \<Longrightarrow> write_ok e outcome ws \<Longrightarrow> write_ok e outcome ((i, j, s) # ws)"
  unfolding write_ok_def by auto

lemma write_ok_append:
  "write_ok e None ws1 \<Longrightarrow> write_ok e outcome ws2 \<Longrightarrow> write_ok e outcome (ws1 @ ws2)"
  unfolding write_ok_def by (cases "ws2 = []") auto

lemma check_instances_writes:
  "\<exists>ws. writes (snd (snd (check_instances m e i j rest (sys, d)))) = writes d @ ws
      \<and> write_ok e (fst (check_instances m e i j rest (sys, d))) ws"
proof (induction rest arbitrary: sys d j)
  case Nil
  show ?case by (simp add: write_ok_Nil)
next
  case (Cons inst rest)
  consider
      (brk) "check_instance m e i j (sys, d) inst = Break (sys, d)"
    | (key) "check_instance m e i j (sys, d) inst = Raise (KeyError ''heartbeat'') (sys, d)"
    | (cont) "check_instance m e i j (sys, d) inst = Continue (sys, d)"
    | (upd) s t where "s = ''UNRESPONSIVE'' \<or> s = ''RUNNING''"
        "status_info inst ''heartbeat'' = Some (Some t)"
        "check_instance m e i j (sys, d) inst = assign_and_update e i j s (sys, d) inst"
    using check_instance_cases [of m e i j "(sys, d)" inst] by blast
  then show ?case
  proof cases
    case brk
    then show ?thesis by (simp add: write_ok_Nil)
  next
    case key
    then show ?thesis by (simp add: write_ok_Nil)
  next
    case cont
    then show ?thesis using Cons.IH [of "Suc j" sys d] by simp
  next
    case upd
    let ?sys' = "sys\<lparr>instances := (instances sys)[j := inst\<lparr>status := s\<rparr>]\<rparr>"
    from assign_and_update_cases [of e i j s sys d inst]
    show ?thesis
    proof (elim disjE exE conjE)
      fix ex
      assume u: "update_raises e i j = Some ex"
        and a: "assign_and_update e i j s (sys, d) inst =
          Raise ex (?sys', d\<lparr>writes := writes d @ [(i, j, s)]\<rparr>)"
      have "write_ok e (Some ex) [(i, j, s)]" using upd(1) u by (rule write_ok_single)
      then show ?thesis using a upd(3) by (intro exI [of _ "[(i, j, s)]"]) simp
    next
      let ?d' = "d\<lparr>writes := writes d @ [(i, j, s)], store := (store d)[i := ?sys']\<rparr>"
      assume u: "update_raises e i j = None"
        and a: "assign_and_update e i j s (sys, d) inst = Continue (?sys', ?d')"
      from Cons.IH [of "Suc j" ?sys' ?d']
      obtain ws where ws:
        "writes (snd (snd (check_instances m e i (Suc j) rest (?sys', ?d')))) = writes ?d' @ ws"
        "write_ok e (fst (check_instances m e i (Suc j) rest (?sys', ?d'))) ws"
        by blast
      have "write_ok e (fst (check_instances m e i (Suc j) rest (?sys', ?d'))) ((i, j, s) # ws)"
        using upd(1) u ws(2) by (rule write_ok_Cons)
      then show ?thesis using ws(1) a upd(3) by (intro exI [of _ "(i, j, s) # ws"]) simp
    qed
  qed
qed

lemma check_systems_writes:
  "\<exists>ws. writes (snd (check_systems m e i rest d)) = writes d @ ws
      \<and> write_ok e (fst (check_systems m e i rest d)) ws"
proof (induction rest arbitrary: d i)
  case Nil
  show ?case by (simp add: write_ok_Nil)
next
  case (Cons sys rest)
  obtain r where r: "check_instances m e i 0 (instances sys) (sys, d) = r" by simp
  from check_instances_writes [of m e i 0 "instances sys" sys d] r
  obtain ws1 where ws1: "writes (snd (snd r)) = writes d @ ws1" "write_ok e (fst r) ws1"
    by auto
  show ?case
  proof (cases "fst r")
    case None
    from Cons.IH [of "Suc i" "snd (snd r)"]
    obtain ws2 where ws2:
      "writes (snd (check_systems m e (Suc i) rest (snd (snd r)))) = writes (snd (snd r)) @ ws2"
      "write_ok e (fst (check_systems m e (Suc i) rest (snd (snd r)))) ws2"
      by blast
    have "write_ok e (fst (check_systems m e (Suc i) rest (snd (snd r)))) (ws1 @ ws2)"
      using ws1(2) ws2(2) None by (simp add: write_ok_append)
    then show ?thesis using ws1(1) ws2(1) None r
      by (intro exI [of _ "ws1 @ ws2"]) (simp add: case_prod_unfold)
  next
    case (Some ex)
    then show ?thesis using ws1 r
      by (intro exI [of _ ws1]) (simp add: case_prod_unfold)
  qed
qed

lemma check_status_writes:
  "\<exists>ws. writes (snd (check_status m e d)) = writes d @ ws
      \<and> write_ok e (fst (check_status m e d)) ws"
proof (cases "query_raises e")
  case None
  then show ?thesis using check_systems_writes [of m e 0 "store d" d]
    by (simp add: check_status_def)
next
  case (Some ex)
  then show ?thesis by (simp add: check_status_def write_ok_Nil)
qed

lemma check_instance_completes:
  assumes "\<not> stopped_at e i j" "update_raises e i j = None" "status_info inst ''heartbeat'' \<noteq> None"
  shows "(check_instance m e i j (sys, d) inst = Continue (sys, d)
            \<and> swept_instance m (utcnow_at e i j) inst = inst)
       \<or> (\<exists>s. check_instance m e i j (sys, d) inst =
            Continue (sys\<lparr>instances := (instances sys)[j := inst\<lparr>status := s\<rparr>]\<rparr>,
                      d\<lparr>writes := writes d @ [(i, j, s)],
                        store := (store d)[i := sys\<lparr>instances := (instances sys)[j := inst\<lparr>status := s\<rparr>]\<rparr>]\<rparr>)
            \<and> swept_instance m (utcnow_at e i j) inst = inst\<lparr>status := s\<rparr>)"
  using assms
  by (auto simp: check_instance_def assign_and_update_def Let_def swept_instance_def
      spec_next_status_def lastHeartbeat_def split: option.splits)

lemma check_instances_completes:
  assumes "\<forall>j. \<not> stopped_at e i j" "\<forall>j. update_raises e i j = None"
  shows "\<forall>inst\<in>set rest. status_info inst ''heartbeat'' \<noteq> None \<Longrightarrow>
     i < length (store d) \<Longrightarrow> store d ! i = sys \<Longrightarrow> instances sys = pre @ rest \<Longrightarrow> j = length pre \<Longrightarrow>
     fst (check_instances m e i j rest (sys, d)) = None
     \<and> store (snd (snd (check_instances m e i j rest (sys, d))))
         = (store d)[i := sys\<lparr>instances := pre @ swept_instances m e i j rest\<rparr>]"
proof (induction rest arbitrary: sys d pre j)
  case Nil
  show ?case using store_update_same [OF Nil.prems(3) Nil.prems(4)] by simp
next
  case (Cons inst rest)
  have key: "status_info inst ''heartbeat'' \<noteq> None" using Cons.prems(1) by simp
  have keys: "\<forall>inst\<in>set rest. status_info inst ''heartbeat'' \<noteq> None" using Cons.prems(1) by simp
  have ns: "\<not> stopped_at e i j" and nu: "update_raises e i j = None" using assms by simp_all
  from check_instance_completes [OF ns nu key, of m sys d]
  show ?case
  proof (elim disjE exE conjE)
    assume c: "check_instance m e i j (sys, d) inst = Continue (sys, d)"
      and s: "swept_instance m (utcnow_at e i j) inst = inst"
    have p: "instances sys = (pre @ [inst]) @ rest" using Cons.prems by simp
    have q: "Suc j = length (pre @ [inst])" using Cons.prems by simp
    from Cons.IH [OF keys Cons.prems(2) Cons.prems(3) p q]
    show ?thesis using c s by simp
  next
    fix s
    let ?inst' = "inst\<lparr>status := s\<rparr>"
    let ?sys' = "sys\<lparr>instances := (instances sys)[j := ?inst']\<rparr>"
    let ?d' = "d\<lparr>writes := writes d @ [(i, j, s)], store := (store d)[i := ?sys']\<rparr>"
    assume c: "check_instance m e i j (sys, d) inst = Continue (?sys', ?d')"
      and s: "swept_instance m (utcnow_at e i j) inst = ?inst'"
    have p1: "i < length (store ?d')" using Cons.prems by simp
    have p2: "store ?d' ! i = ?sys'" using Cons.prems by simp
    have p3: "instances ?sys' = (pre @ [?inst']) @ rest" using Cons.prems by simp
    have p4: "Suc j = length (pre @ [?inst'])" using Cons.prems by simp
    from Cons.IH [OF keys p1 p2 p3 p4]
    show ?thesis using c s by simp
  qed
qed

lemma check_systems_completes:
  assumes "\<forall>i j. \<not> stopped_at e i j" "\<forall>i j. update_raises e i j = None"
  shows "\<forall>sys\<in>set rest. \<forall>inst\<in>set (instances sys). status_info inst ''heartbeat'' \<noteq> None \<Longrightarrow>
     store d = pre @ rest \<Longrightarrow> i = length pre \<Longrightarrow>
     fst (check_systems m e i rest d) = None
     \<and> store (snd (check_systems m e i rest d)) = pre @ swept_systems m e i rest"
proof (induction rest arbitrary: d pre i)
  case Nil
  then show ?case by simp
next
  case (Cons sys rest)
  have keys: "\<forall>inst\<in>set (instances sys). status_info inst ''heartbeat'' \<noteq> None"
    using Cons.prems(1) by simp
  have keys': "\<forall>sys\<in>set rest. \<forall>inst\<in>set (instances sys). status_info inst ''heartbeat'' \<noteq> None"
    using Cons.prems(1) by simp
  have a1: "\<forall>j. \<not> stopped_at e i j" and a2: "\<forall>j. update_raises e i j = None"
    using assms by simp_all
  have p1: "i < length (store d)" using Cons.prems by simp
  have p2: "store d ! i = sys" using Cons.prems by simp
  have p3: "instances sys = [] @ instances sys" and p4: "0 = length ([]::Instance list)" by simp_all
  obtain r where r: "check_instances m e i 0 (instances sys) (sys, d) = r" by simp
  let ?sys' = "sys\<lparr>instances := swept_instances m e i 0 (instances sys)\<rparr>"
  from check_instances_completes [OF a1 a2 keys p1 p2 p3 p4, of m] r
  have r1: "fst r = None" and r2: "store (snd (snd r)) = (store d)[i := ?sys']"
    by auto
  have st: "store (snd (snd r)) = (pre @ [?sys']) @ rest" using r2 Cons.prems by simp
  have "Suc i = length (pre @ [?sys'])" using Cons.prems by simp
  from Cons.IH [OF keys' st this]
  show ?case using r r1 by (simp add: case_prod_unfold)
qed

lemma check_status_completes:
  assumes "query_raises e = None" "\<forall>i j. \<not> stopped_at e i j" "\<forall>i j. update_raises e i j = None"
    "\<forall>sys\<in>set (store d). \<forall>inst\<in>set (instances sys). status_info inst ''heartbeat'' \<noteq> None"
  shows "fst (check_status m e d) = None"
    and "store (snd (check_status m e d)) = swept_systems m e 0 (store d)"
proof -
  have "store d = [] @ store d" and "0 = length ([]::System list)" by simp_all
  from check_systems_completes [OF assms(2) assms(3) assms(4) this, of m]
  show "fst (check_status m e d) = None"
    and "store (snd (check_status m e d)) = swept_systems m e 0 (store d)"
    using assms(1) by (simp_all add: check_status_def)
qed

lemma swept_instances_nth:
  "j < length xs \<Longrightarrow> swept_instances m e i k xs ! j = swept_instance m (utcnow_at e i (k + j)) (xs ! j)"
proof (induction xs arbitrary: k j)
  case Nil
  then show ?case by simp
next
  case (Cons x xs)
  then show ?case by (cases j) simp_all
qed

lemma swept_systems_nth:
  "i < length ss \<Longrightarrow> swept_systems m e k ss ! i
     = (ss ! i)\<lparr>instances := swept_instances m e (k + i) 0 (instances (ss ! i))\<rparr>"
proof (induction ss arbitrary: k i)
  case Nil
  then show ?case by simp
next
  case (Cons x xs)
  then show ?case by (cases i) simp_all
qed

lemma check_status_completes_nth:
  assumes "query_raises e = None" "\<forall>i j. \<not> stopped_at e i j" "\<forall>i j. update_raises e i j = None"
    "\<forall>sys\<in>set (store d). \<forall>inst\<in>set (instances sys). status_info inst ''heartbeat'' \<noteq> None"
    "i < length (store d)" "j < length (instances (store d ! i))"
  shows "instances (store (snd (check_status m e d)) ! i) ! j
           = swept_instance m (utcnow_at e i j) (instances (store d ! i) ! j)"
  using check_status_completes(2) [OF assms(1-4), of m] assms(5,6)
  by (simp add: swept_systems_nth swept_instances_nth)

text \<open>The monitor loop: a sweep reads and changes the store only through
  \<^verbatim>\<open>check_status\<close>, which does not depend on the outcome of the publish.\<close>

lemma database_request_status: "database (request_status m e w) = database w"
  by (simp add: request_status_def queue_put_def split: option.splits)

lemma check_instance_put_free:
  "check_instance m (e\<lparr>put_raises := x\<rparr>) i j st inst = check_instance m e i j st inst"
  by (simp add: check_instance_def assign_and_update_def cong: option.case_cong if_cong)

lemma check_instances_put_free:
  "check_instances m (e\<lparr>put_raises := x\<rparr>) i j rest st = check_instances m e i j rest st"
  by (induction rest arbitrary: j st) (simp_all add: check_instance_put_free cong: flow.case_cong)

lemma check_systems_put_free:
  "check_systems m (e\<lparr>put_raises := x\<rparr>) i rest d = check_systems m e i rest d"
  by (induction rest arbitrary: i d)
    (simp_all add: check_instances_put_free cong: prod.case_cong option.case_cong)

lemma check_status_put_free:
  "check_status m (e\<lparr>put_raises := x\<rparr>) d = check_status m e d"
  by (simp add: check_status_def check_systems_put_free cong: option.case_cong)

lemma sweep_outcome_db:
  "fst (sweep m e w) = fst (check_status m e (database w))
   \<and> database (snd (sweep m e w)) = snd (check_status m e (database w))"
  by (simp add: sweep_def Let_def database_request_status case_prod_unfold)

lemma run_loop_put_free:
  "database w = database w' \<Longrightarrow>
   fst (run_loop m es w) = fst (run_loop m (map (\<lambda>e. e\<lparr>put_raises := None\<rparr>) es) w')
   \<and> database (snd (run_loop m es w))
       = database (snd (run_loop m (map (\<lambda>e. e\<lparr>put_raises := None\<rparr>) es) w'))"
proof (induction es arbitrary: w w')
  case Nil
  then show ?case by simp
next
  case (Cons e es)
  let ?e' = "e\<lparr>put_raises := None\<rparr>"
  let ?w1 = "wait_returns_false e w" and ?w1' = "wait_returns_false ?e' w'"
  have dbw: "database ?w1 = database ?w1'"
    using Cons.prems by (simp add: wait_returns_false_def)
  have f: "fst (sweep m e ?w1) = fst (sweep m ?e' ?w1')"
    and s: "database (snd (sweep m e ?w1)) = database (snd (sweep m ?e' ?w1'))"
    using dbw by (simp_all add: sweep_outcome_db check_status_put_free)
  obtain o1 v1 where r1: "sweep m e ?w1 = (o1, v1)" by (cases "sweep m e ?w1")
  obtain o2 v2 where r2: "sweep m ?e' ?w1' = (o2, v2)" by (cases "sweep m ?e' ?w1'")
  have oo: "o1 = o2" and vv: "database v1 = database v2" using f s r1 r2 by simp_all
  show ?case
  proof (cases o1)
    case None
    then show ?thesis using r1 r2 oo Cons.IH [OF vv] by simp
  next
    case (Some ex)
    then show ?thesis using r1 r2 oo vv by simp
  qed
qed

section \<open>Claims about the Liveness Monitor\<close>

text \<open>
  C1, as the claim words it, fails when the monitor is stopped during the sweep: the loop
  body starts with \<^verbatim>\<open>if self.stopped(): break\<close>, so an instance that is RUNNING with a
  heartbeat older than the timeout keeps its status, and \<^verbatim>\<open>check_status\<close> returns
  normally. The same instance keeps its status in the store when \<^verbatim>\<open>db.update\<close> raises
  for it, and when an instance before it has no entry \<^verbatim>\<open>"heartbeat"\<close>, so that
  \<^verbatim>\<open>instance.status_info["heartbeat"]\<close> raises \<^verbatim>\<open>KeyError\<close> and ends the sweep.
\<close>

theorem sweep_while_stopping_counterexample:
  "status (instances (store (one_instance_db ''RUNNING'' (Some 0)) ! 0) ! 0) = ''RUNNING''
   \<and> status_info (instances (store (one_instance_db ''RUNNING'' (Some 0)) ! 0) ! 0) ''heartbeat''
        = Some (Some 0)
   \<and> timeout default_monitor \<le> utcnow_at (stopping_env 31000000) 0 0 - 0
   \<and> fst (check_status default_monitor (stopping_env 31000000)
        (one_instance_db ''RUNNING'' (Some 0))) = None
   \<and> status (instances (store (snd (check_status default_monitor (stopping_env 31000000)
        (one_instance_db ''RUNNING'' (Some 0)))) ! 0) ! 0) \<noteq> ''UNRESPONSIVE''
   \<and> status (instances (store (snd (check_status default_monitor (stopping_env 31000000)
        (one_instance_db ''RUNNING'' (Some 0)))) ! 0) ! 0) = ''RUNNING''
   \<and> fst (check_status default_monitor (failing_update_env 31000000)
        (one_instance_db ''RUNNING'' (Some 0))) = Some (Exception ''store unreachable'')
   \<and> status (instances (store (snd (check_status default_monitor (failing_update_env 31000000)
        (one_instance_db ''RUNNING'' (Some 0)))) ! 0) ! 0) = ''RUNNING''
   \<and> status_info (instances (store keyless_first_db ! 0) ! 1) ''heartbeat'' = Some (Some 0)
   \<and> status (instances (store keyless_first_db ! 0) ! 1) = ''RUNNING''
   \<and> fst (check_status default_monitor (calm_env 31000000) keyless_first_db)
        = Some (KeyError ''heartbeat'')
   \<and> status (instances (store (snd (check_status default_monitor (calm_env 31000000)
        keyless_first_db)) ! 0) ! 1) = ''RUNNING''"
  by (simp add: check_status_def check_instance_def assign_and_update_def Let_def
      default_monitor_def PluginStatusMonitor_init_def timedelta_seconds_def calm_env_def
      one_instance_db_def instance_with_def stopping_env_def failing_update_env_def
      keyless_first_db_def)

text \<open>
  C1, amended: on a sweep during which the monitor is not stopped, the query and every
  update of the store succeed and every instance has an entry \<^verbatim>\<open>"heartbeat"\<close> in its
  \<^verbatim>\<open>status_info\<close>, \<^verbatim>\<open>check_status\<close> returns normally and, for every instance of the
  store, with \<open>now\<close> the time read for that instance: a RUNNING instance with
  \<open>now - lastHeartbeat \<ge> timeout\<close> becomes UNRESPONSIVE; an UNRESPONSIVE, STARTING,
  INITIALIZING or UNKNOWN instance with \<open>now - lastHeartbeat < timeout\<close> becomes RUNNING; in
  any other combination, an empty heartbeat included, the status stays as it is.
\<close>

theorem completed_sweep_follows_table:
  assumes "query_raises e = None"
    and "\<forall>i j. \<not> stopped_at e i j"
    and "\<forall>i j. update_raises e i j = None"
    and "\<forall>sys\<in>set (store d). \<forall>inst\<in>set (instances sys). status_info inst ''heartbeat'' \<noteq> None"
    and "i < length (store d)"
    and "j < length (instances (store d ! i))"
  shows "fst (check_status m e d) = None
    \<and> (\<forall>t. status_info (instances (store d ! i) ! j) ''heartbeat'' = Some (Some t)
            \<and> status (instances (store d ! i) ! j) = ''RUNNING''
            \<and> utcnow_at e i j - t \<ge> timeout m
          \<longrightarrow> status (instances (store (snd (check_status m e d)) ! i) ! j) = ''UNRESPONSIVE'')
    \<and> (\<forall>t. status_info (instances (store d ! i) ! j) ''heartbeat'' = Some (Some t)
            \<and> status (instances (store d ! i) ! j)
                 \<in> {''UNRESPONSIVE'', ''STARTING'', ''INITIALIZING'', ''UNKNOWN''}
            \<and> utcnow_at e i j - t < timeout m
          \<longrightarrow> status (instances (store (snd (check_status m e d)) ! i) ! j) = ''RUNNING'')
    \<and> (\<not> (\<exists>t. status_info (instances (store d ! i) ! j) ''heartbeat'' = Some (Some t)
            \<and> status (instances (store d ! i) ! j) = ''RUNNING''
            \<and> utcnow_at e i j - t \<ge> timeout m)
        \<and> \<not> (\<exists>t. status_info (instances (store d ! i) ! j) ''heartbeat'' = Some (Some t)
            \<and> status (instances (store d ! i) ! j)
                 \<in> {''UNRESPONSIVE'', ''STARTING'', ''INITIALIZING'', ''UNKNOWN''}
            \<and> utcnow_at e i j - t < timeout m)
          \<longrightarrow> status (instances (store (snd (check_status m e d)) ! i) ! j)
                = status (instances (store d ! i) ! j))"
proof -
  let ?old = "instances (store d ! i) ! j"
  let ?new = "instances (store (snd (check_status m e d)) ! i) ! j"
  have out: "fst (check_status m e d) = None"
    by (rule check_status_completes(1) [OF assms(1-4)])
  have new: "?new = swept_instance m (utcnow_at e i j) ?old"
    by (rule check_status_completes_nth [OF assms])
  have st: "status ?new = spec_next_status (timeout m) (utcnow_at e i j) (status ?old) (lastHeartbeat ?old)"
    unfolding new by (simp add: swept_instance_def)
  show ?thesis
  proof (cases "lastHeartbeat ?old")
    case None
    then have "\<And>t. status_info ?old ''heartbeat'' \<noteq> Some (Some t)"
      by (auto simp: lastHeartbeat_def split: option.splits)
    moreover have "status ?new = status ?old" using st None by (simp add: spec_next_status_def)
    ultimately show ?thesis using out by simp
  next
    case (Some t)
    then have hb: "status_info ?old ''heartbeat'' = Some (Some t)"
      by (auto simp: lastHeartbeat_def split: option.splits)
    have "status ?new =
      (if status ?old = ''RUNNING'' \<and> utcnow_at e i j - t \<ge> timeout m then ''UNRESPONSIVE''
       else if status ?old \<in> {''UNRESPONSIVE'', ''STARTING'', ''INITIALIZING'', ''UNKNOWN''}
               \<and> utcnow_at e i j - t < timeout m
       then ''RUNNING'' else status ?old)"
      using st Some by (simp add: spec_next_status_def)
    then show ?thesis using out hb by auto
  qed
qed

theorem completed_sweep_follows_table_witness:
  "query_raises (calm_env 31000000) = None
   \<and> 0 < length (store (two_instance_db ''RUNNING'' ''STOPPED'' (Some 0)))
   \<and> 0 < length (instances (store (two_instance_db ''RUNNING'' ''STOPPED'' (Some 0)) ! 0))
   \<and> status_info (instances (store (two_instance_db ''RUNNING'' ''STOPPED'' (Some 0)) ! 0) ! 0)
        ''heartbeat'' = Some (Some 0)
   \<and> status (instances (store (two_instance_db ''RUNNING'' ''STOPPED'' (Some 0)) ! 0) ! 0) = ''RUNNING''
   \<and> utcnow_at (calm_env 31000000) 0 0 - 0 \<ge> timeout default_monitor
   \<and> fst (check_status default_monitor (calm_env 31000000)
        (two_instance_db ''RUNNING'' ''STOPPED'' (Some 0))) = None
   \<and> status (instances (store (snd (check_status default_monitor (calm_env 31000000)
        (two_instance_db ''RUNNING'' ''STOPPED'' (Some 0)))) ! 0) ! 0) = ''UNRESPONSIVE''"
proof -
  let ?e = "calm_env 31000000" and ?d = "two_instance_db ''RUNNING'' ''STOPPED'' (Some 0)"
  have h1: "query_raises ?e = None" by (simp add: calm_env_def)
  have h2: "\<forall>i j. \<not> stopped_at ?e i j" by (simp add: calm_env_def)
  have h3: "\<forall>i j. update_raises ?e i j = None" by (simp add: calm_env_def)
  have h4: "\<forall>sys\<in>set (store ?d). \<forall>inst\<in>set (instances sys). status_info inst ''heartbeat'' \<noteq> None"
    by (simp add: two_instance_db_def instance_with_def)
  have h5: "0 < length (store ?d)" by (simp add: two_instance_db_def)
  have h6: "0 < length (instances (store ?d ! 0))" by (simp add: two_instance_db_def)
  have c1: "status_info (instances (store ?d ! 0) ! 0) ''heartbeat'' = Some (Some 0)"
    by (simp add: two_instance_db_def instance_with_def)
  have c2: "status (instances (store ?d ! 0) ! 0) = ''RUNNING''"
    by (simp add: two_instance_db_def instance_with_def)
  have c3: "utcnow_at ?e 0 0 - 0 \<ge> timeout default_monitor"
    by (simp add: calm_env_def default_monitor_def PluginStatusMonitor_init_def timedelta_seconds_def)
  from completed_sweep_follows_table [OF h1 h2 h3 h4 h5 h6, of default_monitor] c1 c2 c3
  have "fst (check_status default_monitor ?e ?d) = None
    \<and> status (instances (store (snd (check_status default_monitor ?e ?d)) ! 0) ! 0) = ''UNRESPONSIVE''"
    by blast
  then show ?thesis using h1 h5 h6 c1 c2 c3 by blast
qed


text \<open>
  C2: on every sweep, whatever the surroundings do, every status the monitor assigns to
  an instance is UNRESPONSIVE or RUNNING, never STOPPED or DEAD; and every instance of the
  store has, after the sweep, the status it had before or one of these two.
\<close>

theorem monitor_assigns_only_unresponsive_or_running:
  "(\<forall>w\<in>set (drop (length (writes d)) (writes (snd (check_status m e d)))).
       (snd (snd w) = ''UNRESPONSIVE'' \<or> snd (snd w) = ''RUNNING'')
       \<and> snd (snd w) \<noteq> ''STOPPED'' \<and> snd (snd w) \<noteq> ''DEAD'')
   \<and> (\<forall>i j. i < length (store d) \<and> j < length (instances (store d ! i)) \<longrightarrow>
         status (instances (store (snd (check_status m e d)) ! i) ! j)
           = status (instances (store d ! i) ! j)
         \<or> status (instances (store (snd (check_status m e d)) ! i) ! j) = ''UNRESPONSIVE''
         \<or> status (instances (store (snd (check_status m e d)) ! i) ! j) = ''RUNNING'')"
proof (intro conjI allI impI ballI)
  fix w
  assume w: "w \<in> set (drop (length (writes d)) (writes (snd (check_status m e d))))"
  from check_status_writes [of m e d]
  obtain ws where ws: "writes (snd (check_status m e d)) = writes d @ ws"
    "write_ok e (fst (check_status m e d)) ws"
    by blast
  have "w \<in> set ws" using w ws(1) by simp
  then have s: "snd (snd w) = ''UNRESPONSIVE'' \<or> snd (snd w) = ''RUNNING''"
    using ws(2) unfolding write_ok_def by blast
  then show "snd (snd w) = ''UNRESPONSIVE'' \<or> snd (snd w) = ''RUNNING''" .
  from s show "snd (snd w) \<noteq> ''STOPPED''" by auto
  from s show "snd (snd w) \<noteq> ''DEAD''" by auto
next
  fix i j
  assume "i < length (store d) \<and> j < length (instances (store d ! i))"
  then have "inst_rel (instances (store d ! i) ! j)
                      (instances (store (snd (check_status m e d)) ! i) ! j)"
    using check_status_inst_rel [of i d j m e] by simp
  then show "status (instances (store (snd (check_status m e d)) ! i) ! j)
           = status (instances (store d ! i) ! j)
         \<or> status (instances (store (snd (check_status m e d)) ! i) ! j) = ''UNRESPONSIVE''
         \<or> status (instances (store (snd (check_status m e d)) ! i) ! j) = ''RUNNING''"
    unfolding inst_rel_def by auto
qed

theorem monitor_assigns_only_unresponsive_or_running_witness:
  "(0, 0, ''UNRESPONSIVE'') \<in> set (drop (length (writes (one_instance_db ''RUNNING'' (Some 0))))
      (writes (snd (check_status default_monitor (calm_env 31000000) (one_instance_db ''RUNNING'' (Some 0))))))
   \<and> 0 < length (store (one_instance_db ''RUNNING'' (Some 0)))
   \<and> 0 < length (instances (store (one_instance_db ''RUNNING'' (Some 0)) ! 0))
   \<and> status (instances (store (snd (check_status default_monitor (calm_env 31000000)
        (one_instance_db ''RUNNING'' (Some 0)))) ! 0) ! 0) = ''UNRESPONSIVE''"
  using monitor_assigns_only_unresponsive_or_running
    [of "one_instance_db ''RUNNING'' (Some 0)" default_monitor "calm_env 31000000"]
  by (simp add: check_status_def check_instance_def assign_and_update_def Let_def
      default_monitor_def PluginStatusMonitor_init_def timedelta_seconds_def calm_env_def
      one_instance_db_def instance_with_def)

text \<open>
  C9: an instance whose record has no last heartbeat (the key \<^verbatim>\<open>"heartbeat"\<close> is missing
  from \<^verbatim>\<open>status_info\<close>, or its value is \<^verbatim>\<open>None\<close>) is the same after a sweep as before, in
  particular its status, whatever that status is and whatever the surroundings do.
\<close>

theorem no_heartbeat_leaves_status:
  assumes "i < length (store d)" "j < length (instances (store d ! i))"
    "status_info (instances (store d ! i) ! j) ''heartbeat'' = None
     \<or> status_info (instances (store d ! i) ! j) ''heartbeat'' = Some None"
  shows "instances (store (snd (check_status m e d)) ! i) ! j = instances (store d ! i) ! j
    \<and> status (instances (store (snd (check_status m e d)) ! i) ! j)
        = status (instances (store d ! i) ! j)"
proof -
  have "inst_rel (instances (store d ! i) ! j)
                 (instances (store (snd (check_status m e d)) ! i) ! j)"
    using check_status_inst_rel [OF assms(1) assms(2), of m e] by simp
  then have "instances (store (snd (check_status m e d)) ! i) ! j = instances (store d ! i) ! j"
    using assms(3) unfolding inst_rel_def by auto
  then show ?thesis by simp
qed

theorem no_heartbeat_leaves_status_witness:
  "0 < length (store (one_instance_db ''STARTING'' None))
   \<and> 0 < length (instances (store (one_instance_db ''STARTING'' None) ! 0))
   \<and> status_info (instances (store (one_instance_db ''STARTING'' None) ! 0) ! 0) ''heartbeat'' = Some None
   \<and> status (instances (store (snd (check_status default_monitor (calm_env 5000000)
        (one_instance_db ''STARTING'' None))) ! 0) ! 0) = ''STARTING''"
proof -
  have a: "0 < length (store (one_instance_db ''STARTING'' None))"
    by (simp add: one_instance_db_def)
  have b: "0 < length (instances (store (one_instance_db ''STARTING'' None) ! 0))"
    by (simp add: one_instance_db_def)
  have c: "status_info (instances (store (one_instance_db ''STARTING'' None) ! 0) ! 0) ''heartbeat'' = Some None"
    by (simp add: one_instance_db_def instance_with_def)
  have "status (instances (store (snd (check_status default_monitor (calm_env 5000000)
        (one_instance_db ''STARTING'' None))) ! 0) ! 0)
      = status (instances (store (one_instance_db ''STARTING'' None) ! 0) ! 0)"
    using no_heartbeat_leaves_status [OF a b disjI2 [OF c]] by simp
  also have "\<dots> = ''STARTING''" by (simp add: one_instance_db_def instance_with_def)
  finally show ?thesis using a b c by simp
qed

text \<open>
  C3, as the claim words it, fails: \<^verbatim>\<open>check_status\<close> has no \<^verbatim>\<open>try\<close>. When
  \<^verbatim>\<open>db.update\<close> raises for the first of two RUNNING instances whose heartbeats are
  older than the timeout, the sweep ends with that exception, the second instance is not
  evaluated (it stays RUNNING, where an undisturbed sweep makes it UNRESPONSIVE), nothing
  is logged, and \<^verbatim>\<open>run\<close> ends with the exception before the next pass.
\<close>

theorem store_error_counterexample:
  "update_raises (failing_update_env 31000000) 0 0 = Some (Exception ''store unreachable'')
   \<and> update_raises (failing_update_env 31000000) 0 1 = None
   \<and> fst (check_status default_monitor (failing_update_env 31000000)
        (two_instance_db ''RUNNING'' ''RUNNING'' (Some 0))) = Some (Exception ''store unreachable'')
   \<and> writes (snd (check_status default_monitor (failing_update_env 31000000)
        (two_instance_db ''RUNNING'' ''RUNNING'' (Some 0)))) = [(0, 0, ''UNRESPONSIVE'')]
   \<and> status (instances (store (snd (check_status default_monitor (failing_update_env 31000000)
        (two_instance_db ''RUNNING'' ''RUNNING'' (Some 0)))) ! 0) ! 1) = ''RUNNING''
   \<and> status (instances (store (snd (check_status default_monitor (calm_env 31000000)
        (two_instance_db ''RUNNING'' ''RUNNING'' (Some 0)))) ! 0) ! 1) = ''UNRESPONSIVE''
   \<and> fst (run default_monitor [failing_update_env 31000000, calm_env 41000000]
        (world_of (two_instance_db ''RUNNING'' ''RUNNING'' (Some 0))))
        = Some (Exception ''store unreachable'')
   \<and> logged (snd (run default_monitor [failing_update_env 31000000, calm_env 41000000]
        (world_of (two_instance_db ''RUNNING'' ''RUNNING'' (Some 0)))))
        = [(''INFO'', ''Plugin Status Monitor is started'', [])]"
  by (simp add: check_status_def check_instance_def assign_and_update_def Let_def
      default_monitor_def PluginStatusMonitor_init_def timedelta_seconds_def calm_env_def
      two_instance_db_def instance_with_def failing_update_env_def world_of_def
      run_def sweep_def wait_returns_false_def request_status_def queue_put_def)

text \<open>
  C3, amended: when \<^verbatim>\<open>db.update\<close> raises for an instance, the sweep neither catches nor
  logs the exception: \<^verbatim>\<open>check_status\<close> ends with it, the assignment to that instance
  is the last thing the sweep did (no later instance is evaluated), and the monitor loop
  ends with the same exception, whatever passes were still scheduled, having logged
  nothing after the publish.
\<close>

theorem store_error_ends_sweep:
  assumes "(i, j, s) \<in> set (drop (length (writes d)) (writes (snd (check_status m e d))))"
    and "update_raises e i j = Some ex"
  shows "fst (check_status m e d) = Some ex
    \<and> last (writes (snd (check_status m e d))) = (i, j, s)
    \<and> (\<forall>es w. database (wait_returns_false e w) = d \<longrightarrow>
          run_loop m (e # es) w =
            (Some ex, (request_status m e (wait_returns_false e w))\<lparr>database := snd (check_status m e d)\<rparr>))"
proof -
  from check_status_writes [of m e d]
  obtain ws where ws: "writes (snd (check_status m e d)) = writes d @ ws"
    "write_ok e (fst (check_status m e d)) ws"
    by blast
  have mem: "(i, j, s) \<in> set ws" using assms(1) ws(1) by simp
  then have a: "fst (check_status m e d) = Some ex \<and> last ws = (i, j, s)"
    using ws(2) assms(2) unfolding write_ok_def by force
  have "ws \<noteq> []" using mem by auto
  then have b: "last (writes (snd (check_status m e d))) = (i, j, s)"
    using a ws(1) by simp
  have c: "\<forall>es w. database (wait_returns_false e w) = d \<longrightarrow>
          run_loop m (e # es) w =
            (Some ex, (request_status m e (wait_returns_false e w))\<lparr>database := snd (check_status m e d)\<rparr>)"
  proof (intro allI impI)
    fix es w
    assume d: "database (wait_returns_false e w) = d"
    obtain out d' where r: "check_status m e d = (out, d')" by (cases "check_status m e d")
    then have "out = Some ex" using a by simp
    then show "run_loop m (e # es) w =
            (Some ex, (request_status m e (wait_returns_false e w))\<lparr>database := snd (check_status m e d)\<rparr>)"
      using r d by (simp add: sweep_def Let_def database_request_status)
  qed
  show ?thesis using a b c by blast
qed

theorem store_error_ends_sweep_witness:
  "(0, 0, ''UNRESPONSIVE'') \<in> set (drop (length (writes (two_instance_db ''RUNNING'' ''RUNNING'' (Some 0))))
      (writes (snd (check_status default_monitor (failing_update_env 31000000)
         (two_instance_db ''RUNNING'' ''RUNNING'' (Some 0))))))
   \<and> update_raises (failing_update_env 31000000) 0 0 = Some (Exception ''store unreachable'')
   \<and> fst (check_status default_monitor (failing_update_env 31000000)
        (two_instance_db ''RUNNING'' ''RUNNING'' (Some 0))) = Some (Exception ''store unreachable'')
   \<and> last (writes (snd (check_status default_monitor (failing_update_env 31000000)
        (two_instance_db ''RUNNING'' ''RUNNING'' (Some 0))))) = (0, 0, ''UNRESPONSIVE'')"
proof -
  let ?e = "failing_update_env 31000000" and ?d = "two_instance_db ''RUNNING'' ''RUNNING'' (Some 0)"
  have h1: "(0, 0, ''UNRESPONSIVE'') \<in> set (drop (length (writes ?d))
      (writes (snd (check_status default_monitor ?e ?d))))"
    by (simp add: check_status_def check_instance_def assign_and_update_def Let_def
      default_monitor_def PluginStatusMonitor_init_def timedelta_seconds_def calm_env_def
      two_instance_db_def instance_with_def failing_update_env_def)
  have h2: "update_raises ?e 0 0 = Some (Exception ''store unreachable'')"
    by (simp add: failing_update_env_def calm_env_def)
  from store_error_ends_sweep [OF h1 h2] show ?thesis using h1 h2 by blast
qed

text \<open>
  C6: when \<^verbatim>\<open>queue.put\<close> raises during a sweep, \<^verbatim>\<open>request_status\<close> returns normally
  having logged one warning with the text of the exception; the same sweep goes on to
  \<^verbatim>\<open>check_status\<close> on the same store; when that check returns normally the loop goes on
  with the next scheduled pass; and the outcome of the loop and the store it leaves are the
  ones of the same schedule with every publish succeeding.
\<close>

theorem publish_failure_is_contained:
  assumes "put_raises e = Some ex"
  shows "request_status m e w =
           w\<lparr>logged := logged w @
              [(''WARNING'', ''Unable to publish status request: %s'', [PyStr (str_exn ex)])]\<rparr>
    \<and> sweep m e w =
         (fst (check_status m e (database w)),
          w\<lparr>logged := logged w @
              [(''WARNING'', ''Unable to publish status request: %s'', [PyStr (str_exn ex)])],
            database := snd (check_status m e (database w))\<rparr>)
    \<and> (fst (check_status m e (database (wait_returns_false e w))) = None \<longrightarrow>
         run_loop m (e # es) w = run_loop m es (snd (sweep m e (wait_returns_false e w))))
    \<and> fst (run_loop m (e # es) w) = fst (run_loop m (map (\<lambda>e. e\<lparr>put_raises := None\<rparr>) (e # es)) w)
    \<and> database (snd (run_loop m (e # es) w))
        = database (snd (run_loop m (map (\<lambda>e. e\<lparr>put_raises := None\<rparr>) (e # es)) w))"
proof -
  have a: "request_status m e w =
           w\<lparr>logged := logged w @
              [(''WARNING'', ''Unable to publish status request: %s'', [PyStr (str_exn ex)])]\<rparr>"
    using assms by (simp add: request_status_def queue_put_def)
  have b: "sweep m e w =
         (fst (check_status m e (database w)),
          w\<lparr>logged := logged w @
              [(''WARNING'', ''Unable to publish status request: %s'', [PyStr (str_exn ex)])],
            database := snd (check_status m e (database w))\<rparr>)"
    unfolding sweep_def a by (simp add: case_prod_unfold)
  have c: "fst (check_status m e (database (wait_returns_false e w))) = None \<longrightarrow>
         run_loop m (e # es) w = run_loop m es (snd (sweep m e (wait_returns_false e w)))"
    using sweep_outcome_db [of m e "wait_returns_false e w"]
    by (cases "sweep m e (wait_returns_false e w)") auto
  have d: "fst (run_loop m (e # es) w) = fst (run_loop m (map (\<lambda>e. e\<lparr>put_raises := None\<rparr>) (e # es)) w)
    \<and> database (snd (run_loop m (e # es) w))
        = database (snd (run_loop m (map (\<lambda>e. e\<lparr>put_raises := None\<rparr>) (e # es)) w))"
    by (rule run_loop_put_free) simp
  show ?thesis using a b c d by blast
qed

theorem publish_failure_is_contained_witness:
  "put_raises (failing_put_env 31000000) = Some (Exception ''broker unreachable'')
   \<and> fst (check_status default_monitor (failing_put_env 31000000)
        (database (wait_returns_false (failing_put_env 31000000)
           (world_of (one_instance_db ''RUNNING'' (Some 0)))))) = None
   \<and> logged (request_status default_monitor (failing_put_env 31000000)
        (world_of (one_instance_db ''RUNNING'' (Some 0))))
       = [(''WARNING'', ''Unable to publish status request: %s'', [PyStr ''broker unreachable''])]
   \<and> run_loop default_monitor [failing_put_env 31000000, calm_env 36000000]
        (world_of (one_instance_db ''RUNNING'' (Some 0)))
       = run_loop default_monitor [calm_env 36000000]
          (snd (sweep default_monitor (failing_put_env 31000000)
             (wait_returns_false (failing_put_env 31000000)
                (world_of (one_instance_db ''RUNNING'' (Some 0))))))"
proof -
  let ?e = "failing_put_env 31000000" and ?w = "world_of (one_instance_db ''RUNNING'' (Some 0))"
  have h: "put_raises ?e = Some (Exception ''broker unreachable'')"
    by (simp add: failing_put_env_def calm_env_def)
  have k: "fst (check_status default_monitor ?e (database (wait_returns_false ?e ?w))) = None"
    by (simp add: check_status_def check_instance_def assign_and_update_def Let_def
      default_monitor_def PluginStatusMonitor_init_def timedelta_seconds_def calm_env_def
      one_instance_db_def instance_with_def failing_put_env_def world_of_def wait_returns_false_def)
  have l: "logged ?w = []" by (simp add: world_of_def)
  from publish_failure_is_contained [OF h, of default_monitor ?w "[calm_env 36000000]"] k l
  show ?thesis using h by simp
qed

section \<open>Claims about the runners\<close>

text \<open>What \<^verbatim>\<open>terminate\<close> does with a process that has exited, and with one that is
  running.\<close>

lemma terminate_exited_is_noop:
  "process r = Some p \<Longrightarrow> poll p \<noteq> None \<Longrightarrow> terminate r w = (None, r, w)"
  by (auto simp: terminate_def)

lemma terminate_running_sends_nothing:
  "process r = Some p \<Longrightarrow> poll p = None \<Longrightarrow>
   terminate r w = (Some (TypeError ([CHR 0x27] @ ''int'' @ [CHR 0x27] @ '' object is not callable'')),
                    r, log_to (''DEBUG'', ''About to send SIGINT'', []) w)"
  by (simp add: terminate_def call_int_def Let_def)

text \<open>
  C4: the claim asks that \<^verbatim>\<open>terminate()\<close> on a runner whose process is running sends
  the interrupt signal and returns normally. The code evaluates \<^verbatim>\<open>self.process.pid()\<close>,
  a call of the integer attribute \<^verbatim>\<open>pid\<close>: for the runner whose process 4242 is running
  \<^verbatim>\<open>terminate\<close> ends with a \<^verbatim>\<open>TypeError\<close> and no signal is sent, where \<^verbatim>\<open>kill\<close>,
  written with \<^verbatim>\<open>self.process.kill()\<close>, sends its signal and returns normally.
\<close>

theorem terminate_running_process_raises:
  "poll \<lparr>pid = 4242, returncode = None\<rparr> = None
   \<and> process running_runner = Some \<lparr>pid = 4242, returncode = None\<rparr>
   \<and> fst (terminate running_runner quiet_world)
       = Some (TypeError ([CHR 0x27] @ ''int'' @ [CHR 0x27] @ '' object is not callable''))
   \<and> signals (snd (snd (terminate running_runner quiet_world))) = []
   \<and> signals (snd (snd (kill running_runner quiet_world))) = [(4242, ''SIGKILL'')]
   \<and> fst (kill running_runner quiet_world) = None"
  by (simp add: terminate_def kill_def call_int_def Let_def poll_def running_runner_def
      ProcessRunner_init_def quiet_world_def log_to_def)

text \<open>How the two readers treat a stream whose raw lines are not empty: \<^verbatim>\<open>_check_io\<close>
  logs every line once and in order whenever the process exits, and so does
  \<^verbatim>\<open>read_stream\<close> when its first \<^verbatim>\<open>poll()\<close> finds the process running; when that first
  \<^verbatim>\<open>poll()\<close> finds the process gone \<^verbatim>\<open>read_stream\<close> reads nothing.\<close>

lemma for_raw_lines_all:
  assumes "\<And>raw io. f raw io = io\<lparr>sink := sink io @ [g raw]\<rparr>"
  shows "[] \<notin> set ps \<Longrightarrow>
    for_raw_lines f False ps io = (True, io\<lparr>pending := [], sink := sink io @ map g ps\<rparr>)"
proof (induction ps arbitrary: io)
  case Nil
  then show ?case by simp
next
  case (Cons raw ps)
  then have "raw \<noteq> []" and "[] \<notin> set ps" by auto
  then show ?case using Cons.IH [of "f raw io"] by (simp add: assms)
qed

lemma check_io_logs_every_line:
  "[] \<notin> set (pending io) \<Longrightarrow>
   sink (check_io r default_level n io)
     = sink io @ map (\<lambda>raw. (level_to_log (log_levels r) default_level (rstrip raw), rstrip raw))
                     (pending io)"
proof (induction n arbitrary: io)
  case 0
  have "\<And>raw io. log_line r default_level raw io
      = io\<lparr>sink := sink io @ [(level_to_log (log_levels r) default_level (rstrip raw), rstrip raw)]\<rparr>"
    by (simp add: log_line_def Let_def)
  from for_raw_lines_all [of "log_line r default_level", OF this 0]
  show ?case by simp
next
  case (Suc n)
  have f: "\<And>raw io. log_line r default_level raw io
      = io\<lparr>sink := sink io @ [(level_to_log (log_levels r) default_level (rstrip raw), rstrip raw)]\<rparr>"
    by (simp add: log_line_def Let_def)
  let ?io' = "snd (for_raw_lines (log_line r default_level) False (pending io) io)"
  have io': "?io' = io\<lparr>pending := [], sink := sink io @
      map (\<lambda>raw. (level_to_log (log_levels r) default_level (rstrip raw), rstrip raw)) (pending io)\<rparr>"
    using for_raw_lines_all [of "log_line r default_level", OF f Suc.prems] by simp
  show ?case
    using Suc.IH [of "?io'\<lparr>runner_notes := runner_notes ?io' @
              [(''DEBUG'', ''Process isn'' @ [CHR 0x27] @ ''t quite dead yet, reading IO again'', [])]\<rparr>"]
    by (simp add: io' Let_def)
qed

lemma read_stream_while_running_logs_every_line:
  "[] \<notin> set (pending io) \<Longrightarrow>
   sink (read_stream (Suc n) io) = sink io @ map (\<lambda>raw. (''INFO'', rstrip raw)) (pending io)"
proof -
  assume a: "[] \<notin> set (pending io)"
  have f: "\<And>raw io. log_info_line raw io = io\<lparr>sink := sink io @ [(''INFO'', rstrip raw)]\<rparr>"
    by (simp add: log_info_line_def)
  have more: "\<And>k io. read_stream_loop k True io = (True, io)"
  proof -
    fix k show "\<And>io. read_stream_loop k True io = (True, io)"
      by (induction k) simp_all
  qed
  show ?thesis
    using for_raw_lines_all [of log_info_line, OF f a, of io]
    by (simp add: read_stream_def more)
qed

lemma read_stream_after_exit_reads_nothing: "read_stream 0 io = io"
  by (simp add: read_stream_def)

text \<open>
  C5: the claim asks that every complete line the process wrote before it exited is logged
  once. When the process wrote the line \<^verbatim>\<open>hello\<close> and exited before the reader thread
  evaluated \<^verbatim>\<open>process.poll()\<close> for the first time, \<^verbatim>\<open>read_stream\<close> does not enter its
  loop: the line stays unread and nothing is logged. With one \<^verbatim>\<open>poll()\<close> that finds the
  process running the line is logged, and \<^verbatim>\<open>_check_io\<close>, which reads before it polls,
  logs it in the same situation.
\<close>

theorem read_stream_after_exit_logs_nothing:
  "pending hello_stream = [''hello'' @ [CHR 0x0A]]
   \<and> sink (read_stream 0 hello_stream) = []
   \<and> pending (read_stream 0 hello_stream) = [''hello'' @ [CHR 0x0A]]
   \<and> sink (read_stream 1 hello_stream) = [(''INFO'', ''hello'')]
   \<and> sink (check_io (PluginRunner_init ''echo'' [] python_log_levels) ''INFO'' 0 hello_stream)
       = [(''INFO'', ''hello'')]"
  by (simp add: read_stream_def hello_stream_def log_info_line_def rstrip_def py_isspace_def
      log_line_def Let_def PluginRunner_init_def python_log_levels_def)

text \<open>Neither the \<^verbatim>\<open>try\<close> block of \<^verbatim>\<open>ProcessRunner.run\<close> nor \<^verbatim>\<open>run\<close> itself
  changes any of the attributes that \<^verbatim>\<open>state()\<close> reports.\<close>

lemma ProcessRunner_try_keeps_state: "state (fst (snd (ProcessRunner_try e r w))) = state r"
  by (simp add: ProcessRunner_try_def Let_def state_def split: sum.splits option.splits)

lemma ProcessRunner_run_keeps_state: "state (fst (snd (ProcessRunner_run e r w))) = state r"
proof -
  let ?w0 = "log_to (''DEBUG'', ''Starting process with args '' @ repr_list (process_args r), []) w"
  obtain out r' w' where t: "ProcessRunner_try e r ?w0 = (out, r', w')"
    by (cases "ProcessRunner_try e r ?w0")
  have "state r' = state r" using ProcessRunner_try_keeps_state [of e r ?w0] t by simp
  moreover have "fst (snd (ProcessRunner_run e r w)) = r'"
    using t by (cases out) (simp_all add: ProcessRunner_run_def Let_def)
  ultimately show ?thesis by simp
qed

lemma last_rlog_log_to: "last (rlog (log_to x w)) = x"
  by (simp add: log_to_def)

text \<open>
  C7, as the claim words it, fails in its last part: \<^verbatim>\<open>run\<close> does not leave the runner in
  a terminal state. When the process 4242 was spawned and opening the log files of the
  reader threads then fails, \<^verbatim>\<open>ProcessRunner.run\<close> returns normally with \<^verbatim>\<open>dead\<close> and
  \<^verbatim>\<open>stopped\<close> still \<^verbatim>\<open>False\<close> and with the process still running: it was neither
  waited for nor sent a signal. After a launch that fails \<^verbatim>\<open>dead\<close> is \<^verbatim>\<open>False\<close> as well,
  and \<^verbatim>\<open>PluginRunner.run\<close> keeps the running process in the same way.
\<close>

theorem run_leaves_runner_not_dead_counterexample:
  "popen_result failing_reader_start = Inr \<lparr>pid = 4242, returncode = None\<rparr>
   \<and> threads_start_raises failing_reader_start = Some (Exception ''Permission denied'')
   \<and> fst (ProcessRunner_run failing_reader_start
        (ProcessRunner_init ''r1'' [''python''] ''echo'' True) quiet_world) = None
   \<and> dead (fst (snd (ProcessRunner_run failing_reader_start
        (ProcessRunner_init ''r1'' [''python''] ''echo'' True) quiet_world))) = False
   \<and> stopped (fst (snd (ProcessRunner_run failing_reader_start
        (ProcessRunner_init ''r1'' [''python''] ''echo'' True) quiet_world))) = False
   \<and> process (fst (snd (ProcessRunner_run failing_reader_start
        (ProcessRunner_init ''r1'' [''python''] ''echo'' True) quiet_world)))
       = Some \<lparr>pid = 4242, returncode = None\<rparr>
   \<and> poll \<lparr>pid = 4242, returncode = None\<rparr> = None
   \<and> signals (snd (snd (ProcessRunner_run failing_reader_start
        (ProcessRunner_init ''r1'' [''python''] ''echo'' True) quiet_world))) = []
   \<and> fst (ProcessRunner_run failing_launch
        (ProcessRunner_init ''r1'' [''python''] ''echo'' True) quiet_world) = None
   \<and> dead (fst (snd (ProcessRunner_run failing_launch
        (ProcessRunner_init ''r1'' [''python''] ''echo'' True) quiet_world))) = False
   \<and> plugin_process (fst (snd (PluginRunner_run failing_reader_start
        (PluginRunner_init ''echo'' [''python''] python_log_levels) quiet_world)))
       = Some \<lparr>pid = 4242, returncode = None\<rparr>"
  by (simp add: ProcessRunner_run_def ProcessRunner_try_def PluginRunner_run_def PluginRunner_try_def
      StreamReader_enter_def StreamReader_exit_def failing_reader_start_def failing_launch_def
      ProcessRunner_init_def PluginRunner_init_def quiet_world_def log_to_def poll_def Let_def)

text \<open>
  C7, amended: whatever raises while the process is spawned or supervised, \<^verbatim>\<open>run\<close> of
  both runners returns normally, and \<^verbatim>\<open>ProcessRunner.run\<close> leaves the attributes that
  \<^verbatim>\<open>state()\<close> reports, \<^verbatim>\<open>restart\<close>, \<^verbatim>\<open>stopped\<close> and \<^verbatim>\<open>dead\<close> among them, as they
  were. When a step raises (\<^verbatim>\<open>Popen\<close>; starting the reader threads; waiting for the
  process; joining the reader threads, whose exception wins over one of waiting), the last
  record \<^verbatim>\<open>ProcessRunner.run\<close> logs is the ERROR record with the text of that exception,
  and the last two records \<^verbatim>\<open>PluginRunner.run\<close> logs are its two ERROR records.
\<close>

theorem run_catches_and_logs_every_failure:
  "fst (ProcessRunner_run e r w) = None
   \<and> fst (PluginRunner_run e pr w) = None
   \<and> state (fst (snd (ProcessRunner_run e r w))) = state r
   \<and> (\<forall>ex. popen_result e = Inl ex
          \<or> (\<exists>p. popen_result e = Inr p \<and> capture_streams r \<and> threads_start_raises e = Some ex)
          \<or> (\<exists>p. popen_result e = Inr p \<and> StreamReader_enter e r = None
                \<and> wait_raises e = Some ex \<and> StreamReader_exit e r = None)
          \<or> (\<exists>p. popen_result e = Inr p \<and> StreamReader_enter e r = None
                \<and> capture_streams r \<and> threads_join_raises e = Some ex)
        \<longrightarrow> last (rlog (snd (snd (ProcessRunner_run e r w))))
              = (''ERROR'', ''Plugin '' @ str_runner r @ '' died: '' @ str_exn ex, []))
   \<and> (\<forall>ex. popen_result e = Inl ex
          \<or> (\<exists>p. popen_result e = Inr p \<and> threads_start_raises e = Some ex)
          \<or> (\<exists>p. popen_result e = Inr p \<and> threads_start_raises e = None
                \<and> threads_join_raises e = Some ex)
        \<longrightarrow> drop (length (rlog (snd (snd (PluginRunner_run e pr w)))) - 2)
                 (rlog (snd (snd (PluginRunner_run e pr w))))
              = [(''ERROR'', ''Plugin %s died'', [PyStr (unique_name pr)]), (''ERROR'', str_exn ex, [])])"
proof -
  have a: "fst (ProcessRunner_run e r w) = None"
    by (simp add: ProcessRunner_run_def Let_def split: prod.splits option.splits)
  have b: "fst (PluginRunner_run e pr w) = None"
    by (simp add: PluginRunner_run_def split: prod.splits option.splits)
  have c: "state (fst (snd (ProcessRunner_run e r w))) = state r"
    by (rule ProcessRunner_run_keeps_state)
  have d: "\<forall>ex. popen_result e = Inl ex
          \<or> (\<exists>p. popen_result e = Inr p \<and> capture_streams r \<and> threads_start_raises e = Some ex)
          \<or> (\<exists>p. popen_result e = Inr p \<and> StreamReader_enter e r = None
                \<and> wait_raises e = Some ex \<and> StreamReader_exit e r = None)
          \<or> (\<exists>p. popen_result e = Inr p \<and> StreamReader_enter e r = None
                \<and> capture_streams r \<and> threads_join_raises e = Some ex)
        \<longrightarrow> last (rlog (snd (snd (ProcessRunner_run e r w))))
              = (''ERROR'', ''Plugin '' @ str_runner r @ '' died: '' @ str_exn ex, [])"
    by (auto simp: ProcessRunner_run_def ProcessRunner_try_def StreamReader_enter_def
        StreamReader_exit_def Let_def last_rlog_log_to str_runner_def split: option.splits)
  have f: "\<forall>ex. popen_result e = Inl ex
          \<or> (\<exists>p. popen_result e = Inr p \<and> threads_start_raises e = Some ex)
          \<or> (\<exists>p. popen_result e = Inr p \<and> threads_start_raises e = None
                \<and> threads_join_raises e = Some ex)
        \<longrightarrow> drop (length (rlog (snd (snd (PluginRunner_run e pr w)))) - 2)
                 (rlog (snd (snd (PluginRunner_run e pr w))))
              = [(''ERROR'', ''Plugin %s died'', [PyStr (unique_name pr)]), (''ERROR'', str_exn ex, [])]"
    by (auto simp: PluginRunner_run_def PluginRunner_try_def Let_def log_to_def)
  show ?thesis using a b c d f by blast
qed

theorem run_catches_and_logs_every_failure_witness:
  "popen_result failing_reader_start = Inr \<lparr>pid = 4242, returncode = None\<rparr>
   \<and> capture_streams (ProcessRunner_init ''r1'' [''python''] ''echo'' True)
   \<and> threads_start_raises failing_reader_start = Some (Exception ''Permission denied'')
   \<and> fst (ProcessRunner_run failing_reader_start
        (ProcessRunner_init ''r1'' [''python''] ''echo'' True) quiet_world) = None
   \<and> fst (PluginRunner_run failing_reader_start
        (PluginRunner_init ''echo'' [''python''] python_log_levels) quiet_world) = None
   \<and> last (rlog (snd (snd (ProcessRunner_run failing_reader_start
        (ProcessRunner_init ''r1'' [''python''] ''echo'' True) quiet_world))))
       = (''ERROR'', ''Plugin echo.r1 died: Permission denied'', [])
   \<and> drop (length (rlog (snd (snd (PluginRunner_run failing_reader_start
          (PluginRunner_init ''echo'' [''python''] python_log_levels) quiet_world)))) - 2)
        (rlog (snd (snd (PluginRunner_run failing_reader_start
          (PluginRunner_init ''echo'' [''python''] python_log_levels) quiet_world))))
       = [(''ERROR'', ''Plugin %s died'', [PyStr ''echo'']), (''ERROR'', ''Permission denied'', [])]"
proof -
  let ?e = failing_reader_start
  let ?r = "ProcessRunner_init ''r1'' [''python''] ''echo'' True"
  let ?pr = "PluginRunner_init ''echo'' [''python''] python_log_levels"
  have h1: "popen_result ?e = Inr \<lparr>pid = 4242, returncode = None\<rparr>"
    by (simp add: failing_reader_start_def)
  have h2: "capture_streams ?r" by (simp add: ProcessRunner_init_def)
  have h3: "threads_start_raises ?e = Some (Exception ''Permission denied'')"
    by (simp add: failing_reader_start_def)
  have n1: "str_runner ?r = ''echo.r1''" by (simp add: str_runner_def ProcessRunner_init_def)
  have n2: "unique_name ?pr = ''echo''" by (simp add: PluginRunner_init_def)
  note T = run_catches_and_logs_every_failure [of ?e ?r quiet_world ?pr]
  have a: "fst (ProcessRunner_run ?e ?r quiet_world) = None" using T by blast
  have b: "fst (PluginRunner_run ?e ?pr quiet_world) = None" using T by blast
  have c: "last (rlog (snd (snd (ProcessRunner_run ?e ?r quiet_world))))
      = (''ERROR'', ''Plugin '' @ str_runner ?r @ '' died: '' @ str_exn (Exception ''Permission denied''), [])"
    using T h1 h2 h3 by blast
  have d: "drop (length (rlog (snd (snd (PluginRunner_run ?e ?pr quiet_world)))) - 2)
        (rlog (snd (snd (PluginRunner_run ?e ?pr quiet_world))))
      = [(''ERROR'', ''Plugin %s died'', [PyStr (unique_name ?pr)]),
         (''ERROR'', str_exn (Exception ''Permission denied''), [])]"
    using T h1 h3 by blast
  have c': "last (rlog (snd (snd (ProcessRunner_run ?e ?r quiet_world))))
      = (''ERROR'', ''Plugin echo.r1 died: Permission denied'', [])"
    using c by (simp add: n1)
  have d': "drop (length (rlog (snd (snd (PluginRunner_run ?e ?pr quiet_world)))) - 2)
        (rlog (snd (snd (PluginRunner_run ?e ?pr quiet_world))))
      = [(''ERROR'', ''Plugin %s died'', [PyStr ''echo'']), (''ERROR'', ''Permission denied'', [])]"
    using d by (simp add: n2)
  show ?thesis using h1 h2 h3 a b c' d' by blast
qed

text \<open>
  C10: for a runner whose process was not spawned yet (\<^verbatim>\<open>self.process\<close> is \<^verbatim>\<open>None\<close>),
  \<^verbatim>\<open>terminate\<close> and \<^verbatim>\<open>kill\<close> of \<^verbatim>\<open>ProcessRunner\<close> and \<^verbatim>\<open>kill\<close> of
  \<^verbatim>\<open>PluginRunner\<close> return normally and leave the runner, the signals sent and the log as
  they were.
\<close>

theorem unspawned_runner_signals_nothing:
  "(process r = None \<longrightarrow> terminate r w = (None, r, w) \<and> kill r w = (None, r, w))
   \<and> (plugin_process pr = None \<longrightarrow> PluginRunner_kill pr w = (None, pr, w))"
  by (simp add: terminate_def kill_def PluginRunner_kill_def)

theorem unspawned_runner_signals_nothing_witness:
  "process (ProcessRunner_init ''r1'' [''python'', ''main.py''] ''echo'' True) = None
   \<and> plugin_process (PluginRunner_init ''echo[default]-1.0'' [''python'', ''main.py''] python_log_levels) = None
   \<and> terminate (ProcessRunner_init ''r1'' [''python'', ''main.py''] ''echo'' True) quiet_world
       = (None, ProcessRunner_init ''r1'' [''python'', ''main.py''] ''echo'' True, quiet_world)
   \<and> kill (ProcessRunner_init ''r1'' [''python'', ''main.py''] ''echo'' True) quiet_world
       = (None, ProcessRunner_init ''r1'' [''python'', ''main.py''] ''echo'' True, quiet_world)
   \<and> PluginRunner_kill (PluginRunner_init ''echo[default]-1.0'' [''python'', ''main.py''] python_log_levels) quiet_world
       = (None, PluginRunner_init ''echo[default]-1.0'' [''python'', ''main.py''] python_log_levels, quiet_world)"
proof -
  have a: "process (ProcessRunner_init ''r1'' [''python'', ''main.py''] ''echo'' True) = None"
    by (simp add: ProcessRunner_init_def)
  have b: "plugin_process (PluginRunner_init ''echo[default]-1.0'' [''python'', ''main.py''] python_log_levels) = None"
    by (simp add: PluginRunner_init_def)
  from unspawned_runner_signals_nothing
    [of "ProcessRunner_init ''r1'' [''python'', ''main.py''] ''echo'' True" quiet_world
        "PluginRunner_init ''echo[default]-1.0'' [''python'', ''main.py''] python_log_levels"]
  show ?thesis using a b by simp
qed

section \<open>Claims about the filesystem watcher\<close>

text \<open>With a started observer every delivered occurrence publishes the event configured
  for its kind, if there is one.\<close>

lemma deliver_configured:
  "observing mf \<Longrightarrow>
   deliver mf occ published = published @ (case configured mf occ of Some ev \<Rightarrow> [ev] | None \<Rightarrow> [])"
  by (cases occ)
     (simp_all add: on_created_def on_modified_def on_moved_def on_deleted_def split: option.splits)

lemma deliver_all_configured:
  "observing mf \<Longrightarrow>
   deliver_all mf occs published
     = published @ concat (map (\<lambda>occ. case configured mf occ of Some ev \<Rightarrow> [ev] | None \<Rightarrow> []) occs)"
  by (induction occs arbitrary: published) (simp_all add: deliver_configured)

text \<open>What \<^verbatim>\<open>__init__\<close> built when it returned for a non-empty path; the directory part
  of the two paths used below; and a bare file name, for which \<^verbatim>\<open>__init__\<close> raises in
  every file system.\<close>

lemma MonitorFile_init_built:
  "MonitorFile_init is_dir (Some p) ce me mv de = Inr mf \<Longrightarrow> p \<noteq> [] \<Longrightarrow>
   mf = \<lparr>watched_file = Some p, path = os_path_split_head p, create_event = ce, modified_event = me,
         moved_event = mv, deleted_event = de, observing = True\<rparr>
   \<and> os_path_split_head p \<noteq> [] \<and> is_dir (os_path_split_head p)"
  by (auto simp: MonitorFile_init_def split: if_splits)

lemma split_head_plugins_yaml: "os_path_split_head ''/etc/beer/plugins.yaml'' = ''/etc/beer''"
  by (simp add: os_path_split_head_def)

lemma split_head_bare_name: "os_path_split_head ''plugins.yaml'' = []"
  by (simp add: os_path_split_head_def)

lemma MonitorFile_init_bare_name:
  "MonitorFile_init is_dir (Some ''plugins.yaml'') ce me mv de = Inl (FileNotFoundError [])"
  by (simp add: MonitorFile_init_def split_head_bare_name)

text \<open>
  C8, as the claim words it, fails in its last part. The watcher of
  \<^verbatim>\<open>/etc/beer/plugins.yaml\<close> has all four events configured. When the file is deleted and
  written again between two polls of the observer, with the same inode and another
  modification time, the observer compares the two snapshots, reports one modification, and
  the watcher publishes the single event configured for modifications, not the delete event
  followed by the create event. With a poll between the deletion and the re-creation it
  publishes the delete event and then the create event.
\<close>

theorem recreate_between_polls_counterexample:
  "MonitorFile_init only_etc_beer (Some ''/etc/beer/plugins.yaml'')
      (Some (Event ''created'')) (Some (Event ''modified''))
      (Some (Event ''moved'')) (Some (Event ''deleted'')) = Inr plugins_yaml_watcher
   \<and> observe plugins_yaml_watcher [DeleteFile, PutFile stat_after, Poll]
        (Some stat_before, Some stat_before, [])
       = (Some stat_after, Some stat_after, [Event ''modified''])
   \<and> snd (snd (observe plugins_yaml_watcher [DeleteFile, PutFile stat_after, Poll]
        (Some stat_before, Some stat_before, []))) \<noteq> [Event ''deleted'', Event ''created'']
   \<and> observe plugins_yaml_watcher [DeleteFile, Poll, PutFile stat_after, Poll]
        (Some stat_before, Some stat_before, [])
       = (Some stat_after, Some stat_after, [Event ''deleted'', Event ''created''])"
  by (simp add: MonitorFile_init_def split_head_plugins_yaml only_etc_beer_def
      plugins_yaml_watcher_def snapshot_diff_def stat_before_def stat_after_def
      on_created_def on_modified_def on_deleted_def)

text \<open>
  C8, amended: for a watcher that \<^verbatim>\<open>__init__\<close> built on a non-empty path, a create
  occurrence delivered for the watched file publishes the configured create event once; an
  occurrence whose event was not configured publishes nothing; in general the events
  published are those configured for the occurrences delivered, in order. A deletion and
  re-creation of the file publishes the delete event and then the create event when a poll
  falls between the two, or when the re-created file has another inode; when both fall
  between two polls and the inode is the same, the watcher publishes the modified event, if
  one is configured, when the modification time or the size differs, and nothing when they
  are the same.
\<close>

theorem watcher_publishes_delivered_occurrences:
  assumes "MonitorFile_init is_dir (Some p) ce me mv de = Inr mf" and "p \<noteq> []"
  shows "(\<forall>ev. ce = Some ev \<longrightarrow> deliver mf Created published = published @ [ev])
    \<and> (\<forall>occ. configured mf occ = None \<longrightarrow> deliver mf occ published = published)
    \<and> deliver_all mf occs published
        = published @ concat (map (\<lambda>occ. case configured mf occ of Some ev \<Rightarrow> [ev] | None \<Rightarrow> []) occs)
    \<and> (\<forall>d c old new. de = Some d \<and> ce = Some c \<longrightarrow>
          observe mf [DeleteFile, Poll, PutFile new, Poll] (Some old, Some old, published)
            = (Some new, Some new, published @ [d, c]))
    \<and> (\<forall>d c old new. de = Some d \<and> ce = Some c \<and> st_ino new \<noteq> st_ino old \<longrightarrow>
          observe mf [DeleteFile, PutFile new, Poll] (Some old, Some old, published)
            = (Some new, Some new, published @ [d, c]))
    \<and> (\<forall>old new. st_ino new = st_ino old
            \<and> (st_mtime new \<noteq> st_mtime old \<or> st_size new \<noteq> st_size old) \<longrightarrow>
          observe mf [DeleteFile, PutFile new, Poll] (Some old, Some old, published)
            = (Some new, Some new,
               published @ (case me of Some m \<Rightarrow> [m] | None \<Rightarrow> [])))
    \<and> (\<forall>old new. st_ino new = st_ino old \<and> st_mtime new = st_mtime old
            \<and> st_size new = st_size old \<longrightarrow>
          observe mf [DeleteFile, PutFile new, Poll] (Some old, Some old, published)
            = (Some new, Some new, published))"
proof -
  have mf: "mf = \<lparr>watched_file = Some p, path = os_path_split_head p, create_event = ce,
      modified_event = me, moved_event = mv, deleted_event = de, observing = True\<rparr>"
    using MonitorFile_init_built [OF assms] by simp
  have obs: "observing mf" using mf by simp
  have a: "\<forall>ev. ce = Some ev \<longrightarrow> deliver mf Created published = published @ [ev]"
    using mf by (simp add: on_created_def)
  have b: "\<forall>occ. configured mf occ = None \<longrightarrow> deliver mf occ published = published"
    using deliver_configured [OF obs] by simp
  have c: "deliver_all mf occs published
        = published @ concat (map (\<lambda>occ. case configured mf occ of Some ev \<Rightarrow> [ev] | None \<Rightarrow> []) occs)"
    by (rule deliver_all_configured [OF obs])
  have d: "\<forall>d c old new. de = Some d \<and> ce = Some c \<longrightarrow>
          observe mf [DeleteFile, Poll, PutFile new, Poll] (Some old, Some old, published)
            = (Some new, Some new, published @ [d, c])"
    using mf by (simp add: snapshot_diff_def on_created_def on_deleted_def)
  have f: "\<forall>d c old new. de = Some d \<and> ce = Some c \<and> st_ino new \<noteq> st_ino old \<longrightarrow>
          observe mf [DeleteFile, PutFile new, Poll] (Some old, Some old, published)
            = (Some new, Some new, published @ [d, c])"
    using mf by (auto simp: snapshot_diff_def on_created_def on_deleted_def)
  have g: "\<forall>old new. st_ino new = st_ino old
            \<and> (st_mtime new \<noteq> st_mtime old \<or> st_size new \<noteq> st_size old) \<longrightarrow>
          observe mf [DeleteFile, PutFile new, Poll] (Some old, Some old, published)
            = (Some new, Some new,
               published @ (case me of Some m \<Rightarrow> [m] | None \<Rightarrow> []))"
    using mf by (auto simp: snapshot_diff_def on_modified_def split: option.splits)
  have h: "\<forall>old new. st_ino new = st_ino old \<and> st_mtime new = st_mtime old
            \<and> st_size new = st_size old \<longrightarrow>
          observe mf [DeleteFile, PutFile new, Poll] (Some old, Some old, published)
            = (Some new, Some new, published)"
    by (simp add: snapshot_diff_def)
  show ?thesis using a b c d f g h by blast
qed

theorem watcher_publishes_delivered_occurrences_witness:
  "MonitorFile_init only_etc_beer (Some ''/etc/beer/plugins.yaml'')
      (Some (Event ''created'')) (Some (Event ''modified''))
      (Some (Event ''moved'')) (Some (Event ''deleted'')) = Inr plugins_yaml_watcher
   \<and> ''/etc/beer/plugins.yaml'' \<noteq> []
   \<and> st_ino stat_after = st_ino stat_before
   \<and> st_mtime stat_after \<noteq> st_mtime stat_before
   \<and> deliver plugins_yaml_watcher Created [] = [Event ''created'']
   \<and> observe plugins_yaml_watcher [DeleteFile, Poll, PutFile stat_after, Poll]
        (Some stat_before, Some stat_before, [])
       = (Some stat_after, Some stat_after, [Event ''deleted'', Event ''created''])
   \<and> observe plugins_yaml_watcher [DeleteFile, PutFile stat_after, Poll]
        (Some stat_before, Some stat_before, [])
       = (Some stat_after, Some stat_after, [Event ''modified''])"
proof -
  have h1: "MonitorFile_init only_etc_beer (Some ''/etc/beer/plugins.yaml'')
      (Some (Event ''created'')) (Some (Event ''modified''))
      (Some (Event ''moved'')) (Some (Event ''deleted'')) = Inr plugins_yaml_watcher"
    by (simp add: MonitorFile_init_def split_head_plugins_yaml only_etc_beer_def
        plugins_yaml_watcher_def)
  have h2: "''/etc/beer/plugins.yaml'' \<noteq> []" by simp
  have s1: "st_ino stat_after = st_ino stat_before"
    by (simp add: stat_before_def stat_after_def)
  have s2: "st_mtime stat_after \<noteq> st_mtime stat_before"
    by (simp add: stat_before_def stat_after_def)
  note T = watcher_publishes_delivered_occurrences [OF h1 h2, of "[]" "[]"]
  have a: "deliver plugins_yaml_watcher Created [] = [] @ [Event ''created'']"
    using T [THEN conjunct1] by blast
  have b: "observe plugins_yaml_watcher [DeleteFile, Poll, PutFile stat_after, Poll]
        (Some stat_before, Some stat_before, [])
       = (Some stat_after, Some stat_after, [] @ [Event ''deleted'', Event ''created''])"
    using T [THEN conjunct2, THEN conjunct2, THEN conjunct2, THEN conjunct1] by blast
  have c: "observe plugins_yaml_watcher [DeleteFile, PutFile stat_after, Poll]
        (Some stat_before, Some stat_before, [])
       = (Some stat_after, Some stat_after,
          [] @ (case Some (Event ''modified'') of Some m \<Rightarrow> [m] | None \<Rightarrow> []))"
    using T [THEN conjunct2, THEN conjunct2, THEN conjunct2, THEN conjunct2, THEN conjunct2,
             THEN conjunct1] s1 s2 by blast
  show ?thesis
    using h1 h2 s1 s2 a b c by (simp only: append_Nil option.case simp_thms)
qed

end
